theory Spec2Isabelle
  imports Complex_Main "HOL-Library.Word" "HOL-Library.Multiset"
begin

section \<open>Data model of libimagequant.c\<close>

text \<open>
  The functions are those of lib/libimagequant.c. A second file of the repository, which
  holds the library and the command line tool together, has the same text for them, up to
  the fields of the attribute object that it reads (\<open>speed_tradeoff\<close> where the library
  reads what \<open>liq_set_speed\<close> derived from it). The headers pam.h, mediancut.h,
  nearest.h, viter.h and blur.h and their sources are not included: what the functions use
  of them is a parameter here.

  The C code computes in \<open>float\<close> and \<open>double\<close>. Both are modelled as \<open>real\<close>:
  rounding, infinities and NaN are outside the model, every comparison and every
  arithmetic operation is the exact one. Arrays with their element count
  (\<open>colormap\<close>, \<open>histogram\<close>) are lists, the count being the length.

  The record fields of the two pixel types carry a prefix, since \<open>a\<close>, \<open>r\<close>, \<open>g\<close>
  and \<open>b\<close> would otherwise be constants: \<open>f_a\<close> is \<open>f_pixel.a\<close>, \<open>px_a\<close> is
  \<open>rgb_pixel.a\<close>.
\<close>

record f_pixel =
  f_a :: real
  f_r :: real
  f_g :: real
  f_b :: real

record rgb_pixel =
  px_r :: "8 word"
  px_g :: "8 word"
  px_b :: "8 word"
  px_a :: "8 word"

record colormap_item =
  acolor :: f_pixel
  popularity :: real

type_synonym colormap = "colormap_item list"

record hist_item =
  h_acolor :: f_pixel
  adjusted_weight :: real
  perceptual_weight :: real

type_synonym histogram = "hist_item list"

text \<open>\<open>struct liq_attr\<close>, without the allocator and the log callbacks.\<close>

record liq_attr =
  target_mse :: real
  max_mse :: real
  voronoi_iteration_limit :: real
  min_opaque_val :: real
  last_index_transparent :: bool
  use_contrast_maps :: bool
  use_dither_map :: bool
  max_colors :: nat
  max_histogram_entries :: nat
  min_posterization :: nat
  voronoi_iterations :: "32 word"
  feedback_loop_trials :: "32 word"

text \<open>\<open>struct liq_result\<close>; its fields carry the prefix \<open>res_\<close>.\<close>

record liq_result =
  res_palette :: colormap
  res_gamma :: real
  res_palette_error :: real
  res_min_opaque_val :: real
  res_dither_level :: real
  res_use_dither_map :: bool

datatype liq_error = LIQ_OK | LIQ_VALUE_OUT_OF_RANGE | LIQ_BUFFER_TOO_SMALL

section \<open>Setters\<close>

text \<open>
  \<open>quality_to_mse\<close>. The macro \<open>MAX_DIFF\<close> comes from pam.h, which is not included: it is
  the first parameter.
\<close>

definition quality_to_mse :: "real \<Rightarrow> int \<Rightarrow> real" where
  "quality_to_mse MAX_DIFF quality =
     (if quality = 0 then MAX_DIFF
      else 2.5 / ((210.0 + real_of_int quality) powr 1.2) * (100.1 - real_of_int quality) / 100.0)"

definition liq_set_quality :: "real \<Rightarrow> liq_attr \<Rightarrow> int \<Rightarrow> int \<Rightarrow> liq_error \<times> liq_attr" where
  "liq_set_quality MAX_DIFF attr target minimum =
     (if target < 0 \<or> target > 100 \<or> target < minimum \<or> minimum < 0
      then (LIQ_VALUE_OUT_OF_RANGE, attr)
      else (LIQ_OK, attr\<lparr>target_mse := quality_to_mse MAX_DIFF target,
                         max_mse := quality_to_mse MAX_DIFF minimum\<rparr>))"

text \<open>The curve as the specification words it, for every quality.\<close>

definition quality_curve :: "int \<Rightarrow> real" where
  "quality_curve q = 2.5 / ((210 + real_of_int q) powr 1.2) * ((100.1 - real_of_int q) / 100)"

text \<open>
  \<open>liq_set_dithering_level\<close>: the range check reads the stored level of the result,
  not the argument.
\<close>

definition liq_set_dithering_level :: "liq_result \<Rightarrow> real \<Rightarrow> liq_error \<times> liq_result" where
  "liq_set_dithering_level res dither_level =
     (if res_dither_level res < 0 \<or> res_dither_level res > 1.0
      then (LIQ_VALUE_OUT_OF_RANGE, res)
      else (LIQ_OK, res\<lparr>res_dither_level := dither_level\<rparr>))"

section \<open>Palette ordering\<close>

text \<open>
  An access outside an array and the use of a null pointer are undefined behaviour in C.
  The model makes them values: a function that could reach one returns \<open>fault + 'a\<close>.
\<close>

datatype fault = Out_Of_Bounds | Null_Pointer

text \<open>\<open>compare_popularity\<close>, the comparator handed to \<open>qsort\<close>.\<close>

definition compare_popularity :: "colormap_item \<Rightarrow> colormap_item \<Rightarrow> int" where
  "compare_popularity ch1 ch2 =
     (let v1 = popularity ch1; v2 = popularity ch2 in if v1 > v2 then 1 else - 1)"

text \<open>
  \<open>qsort\<close> belongs to the C library. It is modelled as a sort that only consults the
  comparator: the first \<open>nmemb\<close> elements of \<open>base\<close> are placed one by one, each one
  behind the elements that the comparator orders before it; the rest of the array stays.
  Which order elements take that the comparator does not separate is not fixed by C; no
  property below depends on it.
\<close>

fun qsort_place :: "('a \<Rightarrow> 'a \<Rightarrow> int) \<Rightarrow> 'a \<Rightarrow> 'a list \<Rightarrow> 'a list" where
  "qsort_place compar x [] = [x]"
| "qsort_place compar x (y # ys) =
     (if compar x y > 0 then y # qsort_place compar x ys else x # y # ys)"

definition qsort :: "'a list \<Rightarrow> nat \<Rightarrow> ('a \<Rightarrow> 'a \<Rightarrow> int) \<Rightarrow> 'a list" where
  "qsort base nmemb compar = foldr (qsort_place compar) (take nmemb base) [] @ drop nmemb base"

text \<open>
  \<open>sort_palette\<close>, first loop (run when \<open>last_index_transparent\<close> is set): the first
  entry with alpha below 1/256 is swapped into the last slot, the entries before the last
  slot are sorted, and the function returns (\<open>Some\<close>). \<open>None\<close>: the loop ended without
  finding such an entry. The variable \<open>map\<close> of the source is \<open>cmap\<close> here.
\<close>

function transparent_to_last :: "colormap \<Rightarrow> nat \<Rightarrow> colormap option" where
  "transparent_to_last cmap i =
     (if i < length cmap then
        (if f_a (acolor (cmap ! i)) < 1 / 256 then
           (let old = i; transparent_dest = length cmap - 1;
                tmp = cmap ! transparent_dest;
                map1 = cmap[transparent_dest := cmap ! old];
                map2 = map1[old := tmp]
            in Some (qsort map2 (length cmap - 1) compare_popularity))
         else transparent_to_last cmap (i + 1))
      else None)"
  by pat_completeness auto
termination
  by (relation "measure (\<lambda>(cmap, i). length cmap - i)") auto

text \<open>
  \<open>sort_palette\<close>, second loop: entries with alpha below 255/256 are swapped to the
  front. After a swap the source decrements \<open>i\<close> and the loop header increments it, so the
  same \<open>i\<close> is looked at again. The result is \<open>num_transparent\<close> and the array.
\<close>

function move_transparent :: "colormap \<Rightarrow> nat \<Rightarrow> nat \<Rightarrow> fault + nat \<times> colormap" where
  "move_transparent cmap i num_transparent =
     (if i < length cmap then
        (if f_a (acolor (cmap ! i)) < 255 / 256 then
           (if i \<noteq> num_transparent then
              (if num_transparent < length cmap then
                 (let tmp = cmap ! num_transparent;
                      map1 = cmap[num_transparent := cmap ! i];
                      map2 = map1[i := tmp]
                  in move_transparent map2 i (num_transparent + 1))
               else Inl Out_Of_Bounds)
            else move_transparent cmap (i + 1) (num_transparent + 1))
         else move_transparent cmap (i + 1) num_transparent)
      else Inr (num_transparent, cmap))"
  by pat_completeness auto
termination
  by (relation "measure (\<lambda>(cmap, i, n). (length cmap - i) + (length cmap - n))") auto

declare transparent_to_last.simps [simp del]
declare move_transparent.simps [simp del]

definition sort_palette :: "colormap \<Rightarrow> liq_attr \<Rightarrow> fault + colormap" where
  "sort_palette cmap options =
     (case (if last_index_transparent options then transparent_to_last cmap 0 else None) of
        Some sorted_map \<Rightarrow> Inr sorted_map
      | None \<Rightarrow>
          (case move_transparent cmap 0 0 of
             Inl e \<Rightarrow> Inl e
           | Inr (num_transparent, map1) \<Rightarrow>
               (let map2 = qsort map1 num_transparent compare_popularity;
                    map3 = take num_transparent map2 @
                           qsort (drop num_transparent map2) (length map2 - num_transparent)
                             compare_popularity
                in Inr map3)))"

text \<open>
  Words of the specification: an entry counts as transparent for the tRNS chunk when its
  alpha is below 255/256 (its byte alpha is then below 255); \<open>num_trans\<close> is their
  number; a palette is in ascending (descending) popularity when no entry is more (less)
  popular than a later one.
\<close>

definition has_transparency :: "colormap_item \<Rightarrow> bool" where
  "has_transparency c \<longleftrightarrow> f_a (acolor c) < 255 / 256"

definition ascending_popularity :: "colormap \<Rightarrow> bool" where
  "ascending_popularity m = sorted_wrt (\<lambda>x y. popularity x \<le> popularity y) m"

definition descending_popularity :: "colormap \<Rightarrow> bool" where
  "descending_popularity m = sorted_wrt (\<lambda>x y. popularity x \<ge> popularity y) m"

definition num_trans :: "colormap \<Rightarrow> nat" where
  "num_trans cmap = length (filter has_transparency cmap)"

section \<open>Palette search\<close>

text \<open>
  \<open>mediancut\<close> (mediancut.c) and \<open>viter_do_iteration\<close> (viter.c) are not included.
  They are parameters of the model, of any behaviour: \<open>mediancut\<close>
  returns the new colormap and the histogram as it leaves it, \<open>viter_do_iteration\<close>
  returns the error, the colormap and the histogram as it leaves them. Its callback
  argument is \<open>None\<close> for \<open>NULL\<close>.
\<close>

type_synonym hist_callback = "hist_item \<Rightarrow> real \<Rightarrow> hist_item"
type_synonym mediancut_fn = "histogram \<Rightarrow> real \<Rightarrow> nat \<Rightarrow> real \<Rightarrow> real \<Rightarrow> colormap \<times> histogram"
type_synonym viter_fn =
  "histogram \<Rightarrow> colormap \<Rightarrow> real \<Rightarrow> hist_callback option \<Rightarrow> real \<times> colormap \<times> histogram"

text \<open>The other setters of the attribute object, and its constructor.\<close>

definition liq_set_max_colors :: "liq_attr \<Rightarrow> int \<Rightarrow> liq_error \<times> liq_attr" where
  "liq_set_max_colors attr colors =
     (if colors < 2 \<or> colors > 256 then (LIQ_VALUE_OUT_OF_RANGE, attr)
      else (LIQ_OK, attr\<lparr>max_colors := nat colors\<rparr>))"

definition liq_set_speed :: "liq_attr \<Rightarrow> int \<Rightarrow> liq_error \<times> liq_attr" where
  "liq_set_speed attr speed =
     (if speed < 1 \<or> speed > 10 then (LIQ_VALUE_OUT_OF_RANGE, attr)
      else
        (let iterations = max (8 - speed) 0;
             iterations = iterations + iterations * iterations div 2
         in (LIQ_OK, attr\<lparr>
               voronoi_iterations := word_of_int iterations,
               voronoi_iteration_limit := 1 / real_of_int (2 ^ nat (23 - speed)),
               feedback_loop_trials := word_of_int (max (56 - 9 * speed) 0),
               max_histogram_entries := nat (2 ^ 17 + 2 ^ 18 * (10 - speed)),
               min_posterization := (if speed \<ge> 8 then 1 else 0),
               use_contrast_maps := (speed \<le> 7),
               use_dither_map := (speed \<le> 5)\<rparr>)))"

definition liq_set_min_opacity :: "liq_attr \<Rightarrow> int \<Rightarrow> liq_error \<times> liq_attr" where
  "liq_set_min_opacity attr min_v =
     (if min_v < 0 \<or> min_v > 255 then (LIQ_VALUE_OUT_OF_RANGE, attr)
      else (LIQ_OK, attr\<lparr>min_opaque_val := real_of_int min_v / 255\<rparr>))"

definition liq_set_last_index_transparent :: "liq_attr \<Rightarrow> int \<Rightarrow> liq_error \<times> liq_attr" where
  "liq_set_last_index_transparent attr is_last =
     (LIQ_OK, attr\<lparr>last_index_transparent := (is_last \<noteq> 0)\<rparr>)"

definition liq_attr_create :: "real \<Rightarrow> liq_attr" where
  "liq_attr_create MAX_DIFF =
     snd (liq_set_speed
       \<lparr>target_mse = 0, max_mse = MAX_DIFF, voronoi_iteration_limit = 0,
        min_opaque_val = 1, last_index_transparent = False, use_contrast_maps = False,
        use_dither_map = False, max_colors = 256, max_histogram_entries = 0,
        min_posterization = 0, voronoi_iterations = 0, feedback_loop_trials = 0\<rparr> 3)"

text \<open>
  \<open>struct liq_attr\<close> is opaque to callers: an attribute object is created by
  \<open>liq_attr_create\<close> and changed by the setters only. \<open>attr_settings\<close> holds of exactly
  the objects obtained this way.
\<close>

inductive attr_settings :: "real \<Rightarrow> liq_attr \<Rightarrow> bool" for MAX_DIFF :: real where
  created: "attr_settings MAX_DIFF (liq_attr_create MAX_DIFF)"
| quality: "attr_settings MAX_DIFF attr \<Longrightarrow>
     attr_settings MAX_DIFF (snd (liq_set_quality MAX_DIFF attr target minimum))"
| colors: "attr_settings MAX_DIFF attr \<Longrightarrow>
     attr_settings MAX_DIFF (snd (liq_set_max_colors attr n))"
| speed: "attr_settings MAX_DIFF attr \<Longrightarrow>
     attr_settings MAX_DIFF (snd (liq_set_speed attr s))"
| opacity: "attr_settings MAX_DIFF attr \<Longrightarrow>
     attr_settings MAX_DIFF (snd (liq_set_min_opacity attr v))"
| last_index: "attr_settings MAX_DIFF attr \<Longrightarrow>
     attr_settings MAX_DIFF (snd (liq_set_last_index_transparent attr f))"

definition adjust_histogram_callback :: "hist_item \<Rightarrow> real \<Rightarrow> hist_item" where
  "adjust_histogram_callback item diff =
     item\<lparr>adjusted_weight := (perceptual_weight item + adjusted_weight item) * sqrt (1 + diff)\<rparr>"

text \<open>
  \<open>find_best_palette\<close>: the \<open>do ... while\<close> loop is \<open>find_best_loop\<close>. The result is
  the returned colormap (\<open>None\<close> for a null pointer), the value written to
  \<open>*palette_error_p\<close> (\<open>None\<close> when nothing is written) and the histogram.
\<close>

function find_best_loop ::
  "mediancut_fn \<Rightarrow> viter_fn \<Rightarrow> liq_attr \<Rightarrow> histogram \<Rightarrow> nat \<Rightarrow> int \<Rightarrow> colormap option
     \<Rightarrow> real \<Rightarrow> real \<Rightarrow> colormap option \<times> real option \<times> histogram" where
  "find_best_loop mediancut viter options hist max_cols trials acolormap least_error
       target_mse_overshoot =
     (case mediancut hist (min_opaque_val options) max_cols
             (target_mse options * target_mse_overshoot)
             (max (max (90 / 65536) (target_mse options)) least_error * 1.2) of
        (newmap, hist1) \<Rightarrow>
          if trials \<le> 0 then (Some newmap, None, hist1)
          else
            (let first_run_of_target_mse = (acolormap = None \<and> target_mse options > 0) in
             case viter hist1 newmap (min_opaque_val options)
                    (if first_run_of_target_mse then None else Some adjust_histogram_callback) of
               (total_error, newmap1, hist2) \<Rightarrow>
                 if acolormap = None \<or> total_error < least_error
                    \<or> (total_error \<le> target_mse options \<and> length newmap1 < max_cols)
                 then
                   (let overshoot1 =
                          (if total_error < target_mse options \<and> total_error > 0
                           then min (target_mse_overshoot * 1.25) (target_mse options / total_error)
                           else target_mse_overshoot);
                        max_cols1 = min (length newmap1 + 1) max_cols;
                        trials1 = trials - 1
                    in if trials1 > 0
                       then find_best_loop mediancut viter options hist2 max_cols1 trials1
                              (Some newmap1) total_error overshoot1
                       else (Some newmap1, Some total_error, hist2))
                 else
                   (let hist3 = map (\<lambda>h. h\<lparr>adjusted_weight :=
                                       (perceptual_weight h + adjusted_weight h) / 2\<rparr>) hist2;
                        trials1 = trials - 6;
                        trials2 = (if total_error > least_error * 4 then trials1 - 3 else trials1)
                    in if trials2 > 0
                       then find_best_loop mediancut viter options hist3 max_cols trials2
                              acolormap least_error 1
                       else (acolormap, Some least_error, hist3))))"
  by pat_completeness auto
termination
  by (relation "measure (\<lambda>(mediancut, viter, options, hist, max_cols, trials, rest). nat trials)")
     (auto split: if_splits)

declare find_best_loop.simps [simp del]

definition find_best_palette ::
  "mediancut_fn \<Rightarrow> viter_fn \<Rightarrow> real \<Rightarrow> histogram \<Rightarrow> liq_attr
     \<Rightarrow> colormap option \<times> real option \<times> histogram" where
  "find_best_palette mediancut viter MAX_DIFF hist options =
     (let max_cols = max_colors options;
          trials = sint (feedback_loop_trials options);
          least_error = MAX_DIFF;
          target_mse_overshoot = (if trials > 0 then 1.05 else 1)
      in find_best_loop mediancut viter options hist max_cols trials None least_error
           target_mse_overshoot)"

text \<open>
  \<open>pngquant_quantize\<close>, the Voronoi iteration loop. \<open>i\<close> and \<open>iterations\<close> are
  \<open>unsigned int\<close>; \<open>iterations++\<close> inside the loop wraps around, which is what ends the
  loop when every pass finds the error between 1.5 and 3 times \<open>max_mse\<close>.
\<close>

function voronoi_loop ::
  "viter_fn \<Rightarrow> liq_attr \<Rightarrow> 32 word \<Rightarrow> 32 word \<Rightarrow> real \<Rightarrow> histogram \<Rightarrow> colormap \<Rightarrow> real
     \<Rightarrow> colormap \<times> real" where
  "voronoi_loop viter options i iterations previous_palette_error hist acolormap palette_error =
     (if i < iterations then
        (case viter hist acolormap (min_opaque_val options) None of
           (palette_error1, acolormap1, hist1) \<Rightarrow>
             if \<bar>previous_palette_error - palette_error1\<bar> < voronoi_iteration_limit options
             then (acolormap1, palette_error1)
             else if palette_error1 > max_mse options * 1.5
             then (if palette_error1 > max_mse options * 3
                   then (acolormap1, palette_error1)
                   else voronoi_loop viter options (i + 1) (iterations + 1) palette_error1
                          hist1 acolormap1 palette_error1)
             else voronoi_loop viter options (i + 1) iterations palette_error1
                    hist1 acolormap1 palette_error1)
      else (acolormap, palette_error))"
  by pat_completeness auto
termination
proof (relation "measure (\<lambda>(viter, options, i, iterations, rest).
          if i < iterations
          then (2 ^ 32 - unat iterations) * 2 ^ 32 + (unat iterations - unat i) else 0)",
       goal_cases)
  case 1
  show ?case by simp
next
  case (2 viter options i iterations previous hist acolormap palette_error x y z)
  then have lt: "i < iterations" by simp
  have a: "unat i < unat iterations" using lt by (simp add: word_less_nat_alt)
  have b: "unat iterations < 2 ^ 32" using unsigned_less [of iterations, where ?'a = nat] by simp
  have i1: "unat (i + 1) = unat i + 1"
    using a b by (simp add: unat_word_ariths)
  have "(if i + 1 < iterations + 1
          then (2 ^ 32 - unat (iterations + 1)) * 2 ^ 32 + (unat (iterations + 1) - unat (i + 1)) else 0)
       < (2 ^ 32 - unat iterations) * 2 ^ 32 + (unat iterations - unat i)"
  proof (cases "unat iterations + 1 < 2 ^ 32")
    case True
    then have its1: "unat (iterations + 1) = unat iterations + 1"
      by (simp add: unat_word_ariths)
    define K where "K = (2 ^ 32 - unat (iterations + 1)) * (2 ^ 32 :: nat)"
    have "2 ^ 32 - unat iterations = Suc (2 ^ 32 - unat (iterations + 1))"
      using True its1 by simp
    then have eq: "(2 ^ 32 - unat iterations) * (2 ^ 32 :: nat) = K + 2 ^ 32"
      by (simp only: K_def mult_Suc add.commute)
    have "(if i + 1 < iterations + 1 then K + (unat (iterations + 1) - unat (i + 1)) else 0)
        < K + 2 ^ 32 + (unat iterations - unat i)"
      using a i1 its1 by auto
    then show ?thesis by (simp only: eq K_def [symmetric])
  next
    case False
    then have "unat iterations + 1 = 2 ^ 32" using b by simp
    then have "unat (iterations + 1) = 0" by (simp add: unat_word_ariths)
    then have "\<not> i + 1 < iterations + 1" by (simp add: word_less_nat_alt)
    then show ?thesis using a by simp
  qed
  then show ?case using lt by simp
next
  case (3 viter options i iterations previous hist acolormap palette_error x y z)
  then have lt: "i < iterations" by simp
  have a: "unat i < unat iterations" using lt by (simp add: word_less_nat_alt)
  have b: "unat iterations < 2 ^ 32" using unsigned_less [of iterations, where ?'a = nat] by simp
  have "unat (i + 1) = unat i + 1"
    using a b by (simp add: unat_word_ariths)
  moreover define K where "K = (2 ^ 32 - unat iterations) * (2 ^ 32 :: nat)"
  ultimately have "(if i + 1 < iterations then K + (unat iterations - unat (i + 1)) else 0)
       < K + (unat iterations - unat i)"
    using a by auto
  then have "(if i + 1 < iterations
          then (2 ^ 32 - unat iterations) * 2 ^ 32 + (unat iterations - unat (i + 1)) else 0)
       < (2 ^ 32 - unat iterations) * 2 ^ 32 + (unat iterations - unat i)"
    by (simp only: K_def)
  then show ?case using lt by simp
qed

declare voronoi_loop.simps [simp del]

text \<open>
  \<open>pngquant_quantize\<close>. \<open>histogram_palette\<close> is the loop of the branch for an image
  of few colours, \<open>refine_palette\<close> the other branch up to the test against
  \<open>max_mse\<close>, \<open>make_result\<close> the common end (\<open>sort_palette\<close> and the result object).
  A returned \<open>NULL\<close> is \<open>Inr None\<close>.
\<close>

definition histogram_palette :: "histogram \<Rightarrow> colormap" where
  "histogram_palette hist =
     map (\<lambda>h. \<lparr>acolor = h_acolor h, popularity = perceptual_weight h\<rparr>) hist"

definition refine_palette ::
  "mediancut_fn \<Rightarrow> viter_fn \<Rightarrow> real \<Rightarrow> histogram \<Rightarrow> liq_attr \<Rightarrow> fault + colormap \<times> real" where
  "refine_palette mediancut viter MAX_DIFF hist options =
     (case find_best_palette mediancut viter MAX_DIFF hist options of
        (None, written, hist1) \<Rightarrow> Inl Null_Pointer
      | (Some acolormap, written, hist1) \<Rightarrow>
          (let palette_error = (case written of None \<Rightarrow> - 1 | Some e \<Rightarrow> e);
               iterations = voronoi_iterations options;
               iterations = (if iterations = 0 \<and> palette_error < 0 \<and> max_mse options < MAX_DIFF
                             then 1 else iterations)
           in if iterations \<noteq> 0
              then Inr (voronoi_loop viter options 0 iterations MAX_DIFF hist1 acolormap palette_error)
              else Inr (acolormap, palette_error)))"

definition make_result :: "colormap \<Rightarrow> real \<Rightarrow> liq_attr \<Rightarrow> fault + liq_result option" where
  "make_result acolormap palette_error options =
     (case sort_palette acolormap options of
        Inl e \<Rightarrow> Inl e
      | Inr sorted_map \<Rightarrow>
          Inr (Some \<lparr>res_palette = sorted_map, res_gamma = 0.45455,
                     res_palette_error = palette_error,
                     res_min_opaque_val = min_opaque_val options,
                     res_dither_level = 0,
                     res_use_dither_map = use_dither_map options\<rparr>))"

definition pngquant_quantize ::
  "mediancut_fn \<Rightarrow> viter_fn \<Rightarrow> real \<Rightarrow> histogram \<Rightarrow> liq_attr \<Rightarrow> fault + liq_result option" where
  "pngquant_quantize mediancut viter MAX_DIFF hist options =
     (if length hist \<le> max_colors options \<and> target_mse options = 0
      then make_result (histogram_palette hist) 0 options
      else
        (case refine_palette mediancut viter MAX_DIFF hist options of
           Inl e \<Rightarrow> Inl e
         | Inr (acolormap, palette_error) \<Rightarrow>
             if palette_error > max_mse options then Inr None
             else make_result acolormap palette_error options))"

text \<open>
  The palette that quantization constructs and its error, before the palette is ordered:
  what the two branches of \<open>pngquant_quantize\<close> hold in \<open>acolormap\<close> and
  \<open>palette_error\<close>.
\<close>

definition palette_search ::
  "mediancut_fn \<Rightarrow> viter_fn \<Rightarrow> real \<Rightarrow> histogram \<Rightarrow> liq_attr \<Rightarrow> fault + colormap \<times> real" where
  "palette_search mediancut viter MAX_DIFF hist options =
     (if length hist \<le> max_colors options \<and> target_mse options = 0
      then Inr (histogram_palette hist, 0)
      else refine_palette mediancut viter MAX_DIFF hist options)"

section \<open>Image preparation and the dither map\<close>

text \<open>
  \<open>struct liq_image\<close>; its fields carry the prefix \<open>img_\<close>. The caller's pixel
  memory is \<open>img_memory\<close>, and \<open>img_rows\<close> holds for each row pointer the place in
  that memory it points to, so that pixel \<open>rows[row][col]\<close> is
  \<open>img_memory ! (img_rows ! row + col)\<close>: rows may overlap or coincide, as the row
  pointers of a caller may. The three maps are \<open>None\<close> for a null pointer.
\<close>

record liq_image =
  img_memory :: "rgb_pixel list"
  img_rows :: "nat list"
  img_gamma :: real
  img_width :: nat
  img_height :: nat
  img_noise :: "real list option"
  img_edges :: "real list option"
  img_dither_map :: "real list option"
  img_modified :: bool

text \<open>
  \<open>to_f\<close> and \<open>to_rgb\<close> (pam.h) are not included: they are
  parameters of the model. \<open>to_f\<close> reads the gamma that \<open>to_f_set_gamma\<close> installed
  last, which is its first argument here.
\<close>

type_synonym to_f_fn = "real \<Rightarrow> rgb_pixel \<Rightarrow> f_pixel"
type_synonym to_rgb_fn = "real \<Rightarrow> f_pixel \<Rightarrow> rgb_pixel"

text \<open>
  \<open>modify_alpha\<close>. Every pixel of every row is read and may be written; when a row does
  not lie inside the pixel memory, that is an access out of bounds. The conversion of
  \<open>almost_opaque_val*255.f\<close> to \<open>unsigned int\<close> truncates. The parameter
  \<open>min_opaque_val\<close> of the source is \<open>min_opaque_v\<close> here.
\<close>

definition rows_in_memory :: "liq_image \<Rightarrow> bool" where
  "rows_in_memory img \<longleftrightarrow>
     img_height img \<le> length (img_rows img) \<and>
     (\<forall>row < img_height img. img_rows img ! row + img_width img \<le> length (img_memory img))"

definition modify_alpha_pixel ::
  "to_f_fn \<Rightarrow> to_rgb_fn \<Rightarrow> real \<Rightarrow> real \<Rightarrow> real \<Rightarrow> nat \<Rightarrow> rgb_pixel \<Rightarrow> rgb_pixel" where
  "modify_alpha_pixel to_f to_rgb gamma min_opaque_v almost_opaque_val almost_opaque_val_int srcpx =
     (if unat (px_a srcpx) \<ge> almost_opaque_val_int then
        (let px = to_f gamma srcpx;
             al = almost_opaque_val
                  + (f_a px - almost_opaque_val) * (1 - almost_opaque_val)
                    / (min_opaque_v - almost_opaque_val);
             al = (if al > 1 then 1 else al);
             px = px\<lparr>f_a := al\<rparr>
         in srcpx\<lparr>px_a := px_a (to_rgb gamma px)\<rparr>)
      else srcpx)"

definition modify_alpha :: "to_f_fn \<Rightarrow> to_rgb_fn \<Rightarrow> liq_image \<Rightarrow> real \<Rightarrow> fault + liq_image" where
  "modify_alpha to_f to_rgb input_image min_opaque_v =
     (let rows = img_height input_image; cols = img_width input_image;
          gamma = img_gamma input_image;
          almost_opaque_val = min_opaque_v * 169 / 256;
          almost_opaque_val_int = nat \<lfloor>almost_opaque_val * 255\<rfloor>
      in if \<not> rows_in_memory input_image then Inl Out_Of_Bounds
         else Inr (input_image\<lparr>
                img_memory :=
                  fold (\<lambda>row. fold (\<lambda>col mem.
                          let addr = img_rows input_image ! row + col
                          in mem[addr := modify_alpha_pixel to_f to_rgb gamma min_opaque_v
                                         almost_opaque_val almost_opaque_val_int (mem ! addr)])
                        [0..<cols])
                    [0..<rows] (img_memory input_image),
                img_modified := True\<rparr>))"

text \<open>
  Modelled from the spec: \<open>to_f\<close> and \<open>to_rgb\<close> of pam.h, which is not included.
  The specification says: "\<open>to_f(byte_px, gamma)\<close>: linear float with
  channels raised to \<open>gamma\<close> (alpha passed through divided by 255).
  \<open>to_rgb(float_px, output_gamma)\<close>: byte with channels inverse-gamma'd and rounded."
  They are used to run \<open>modify_alpha\<close> on a concrete image only.
\<close>

definition spec_to_f :: to_f_fn where
  "spec_to_f gamma px =
     \<lparr>f_a = real (unat (px_a px)) / 255,
      f_r = (real (unat (px_r px)) / 255) powr gamma,
      f_g = (real (unat (px_g px)) / 255) powr gamma,
      f_b = (real (unat (px_b px)) / 255) powr gamma\<rparr>"

definition spec_round_byte :: "real \<Rightarrow> 8 word" where
  "spec_round_byte x = (if x \<ge> 1 then 255 else if x \<le> 0 then 0 else of_int \<lfloor>x * 255 + 1 / 2\<rfloor>)"

definition spec_to_rgb :: to_rgb_fn where
  "spec_to_rgb gamma px =
     \<lparr>px_r = spec_round_byte (f_r px powr (1 / gamma)),
      px_g = spec_round_byte (f_g px powr (1 / gamma)),
      px_b = spec_round_byte (f_b px powr (1 / gamma)),
      px_a = spec_round_byte (f_a px)\<rparr>"

text \<open>
  What \<open>modify_alpha\<close> may change, for a threshold \<open>t\<close> on the alpha byte: the memory
  keeps its size, every pixel keeps its r, g and b bytes, and a pixel whose alpha byte is
  below \<open>t\<close> stays as it is.
\<close>

definition alpha_frame :: "nat \<Rightarrow> rgb_pixel list \<Rightarrow> rgb_pixel list \<Rightarrow> bool" where
  "alpha_frame t before after \<longleftrightarrow>
     length after = length before \<and>
     (\<forall>k < length before.
        px_r (after ! k) = px_r (before ! k) \<and> px_g (after ! k) = px_g (before ! k)
        \<and> px_b (after ! k) = px_b (before ! k)
        \<and> (unat (px_a (before ! k)) < t \<longrightarrow> after ! k = before ! k))"

text \<open>
  \<open>update_dither_map\<close>. The index plane \<open>row_pointers\<close> is only read. The function
  reads \<open>row_pointers[row][0]\<close> of every row and writes \<open>edges[row*width + col]\<close>:
  \<open>plane_fits\<close> says that these accesses are in bounds. \<open>count_neighbors\<close> is the
  \<open>while (i < col)\<close> loop, \<open>dither_run\<close> the body of the loop over \<open>col\<close> with the
  state \<open>(lastpixel, lastcol, edges)\<close>, \<open>dither_row\<close> the body of the loop over \<open>row\<close>.
\<close>

type_synonym index_plane = "8 word list list"

definition plane_fits :: "index_plane \<Rightarrow> liq_image \<Rightarrow> bool" where
  "plane_fits row_pointers img \<longleftrightarrow>
     img_height img \<le> length row_pointers \<and>
     (\<forall>row < img_height img. 1 \<le> length (row_pointers ! row)
                              \<and> img_width img \<le> length (row_pointers ! row)) \<and>
     (case img_edges img of None \<Rightarrow> True
      | Some edges \<Rightarrow> img_width img * img_height img \<le> length edges)"

definition count_neighbors ::
  "index_plane \<Rightarrow> nat \<Rightarrow> nat \<Rightarrow> 8 word \<Rightarrow> nat \<Rightarrow> nat \<Rightarrow> real" where
  "count_neighbors row_pointers height row lastpixel lastcol col =
     fold (\<lambda>i neighbor_count.
             let n1 = (if row > 0 \<and> row_pointers ! (row - 1) ! i = lastpixel
                       then neighbor_count + 1 else neighbor_count);
                 n2 = (if row < height - 1 \<and> row_pointers ! (row + 1) ! i = lastpixel
                       then n1 + 1 else n1)
             in n2)
       [lastcol..<col] (2.5 + real col - real lastcol)"

definition dither_run ::
  "index_plane \<Rightarrow> nat \<Rightarrow> nat \<Rightarrow> nat \<Rightarrow> nat \<Rightarrow> 8 word \<times> nat \<times> real list
     \<Rightarrow> 8 word \<times> nat \<times> real list" where
  "dither_run row_pointers width height row col state =
     (case state of (lastpixel, lastcol, edges) \<Rightarrow>
        (let px = row_pointers ! row ! col in
         if px \<noteq> lastpixel \<or> col = width - 1 then
           (let neighbor_count = count_neighbors row_pointers height row lastpixel lastcol col;
                edges1 = fold (\<lambda>k e. e[row * width + k :=
                                         e ! (row * width + k) * (1 - 2.5 / neighbor_count)])
                           [lastcol..<col + 1] edges;
                lastcol1 = (if lastcol \<le> col then col + 1 else lastcol)
            in (px, lastcol1, edges1))
         else (lastpixel, lastcol, edges)))"

definition dither_row :: "index_plane \<Rightarrow> nat \<Rightarrow> nat \<Rightarrow> nat \<Rightarrow> real list \<Rightarrow> real list" where
  "dither_row row_pointers width height row edges =
     (let lastpixel = row_pointers ! row ! 0;
          lastcol = 0
      in snd (snd (fold (dither_run row_pointers width height row) [1..<width]
                     (lastpixel, lastcol, edges))))"

definition update_dither_map :: "index_plane \<Rightarrow> liq_image \<Rightarrow> fault + liq_image" where
  "update_dither_map row_pointers input_image =
     (let width = img_width input_image;
          height = img_height input_image
      in if \<not> plane_fits row_pointers input_image then Inl Out_Of_Bounds
         else
           (case img_edges input_image of
              None \<Rightarrow>
                if height = 0 \<or> width \<le> 1
                then Inr (input_image\<lparr>img_dither_map := None, img_edges := None\<rparr>)
                else Inl Null_Pointer
            | Some edges \<Rightarrow>
                Inr (input_image\<lparr>
                       img_dither_map :=
                         Some (fold (dither_row row_pointers width height) [0..<height] edges),
                       img_edges := None\<rparr>)))"

text \<open>
  A cell is damped when it is unchanged or was multiplied once by \<open>1 - 2.5/neighbor_count\<close>
  for a count of at least 2.5; \<open>damped_upto\<close> adds that the cells from \<open>bound\<close> on are
  still untouched.
\<close>

definition damped :: "real \<Rightarrow> real \<Rightarrow> bool" where
  "damped before after \<longleftrightarrow>
     after = before \<or> (\<exists>neighbor_count \<ge> 2.5. after = before * (1 - 2.5 / neighbor_count))"

definition damped_upto :: "real list \<Rightarrow> nat \<Rightarrow> real list \<Rightarrow> bool" where
  "damped_upto before bound after \<longleftrightarrow>
     length after = length before \<and>
     (\<forall>k < length before. (bound \<le> k \<longrightarrow> after ! k = before ! k) \<and> damped (before ! k) (after ! k))"

section \<open>Remapping\<close>

text \<open>
  What the remappers use of the missing parts of the repository (pam.h, nearest.c) and of
  the C library, as one record of parameters: \<open>to_f\<close>, \<open>to_rgb\<close>,
  \<open>colordifference\<close> and \<open>MAX_DIFF\<close> of pam.h; \<open>nearest_search\<close>, applied to the
  colormap that \<open>nearest_init\<close> got, returning the index and the difference it writes
  through its last argument; \<open>rand\<close> as the sequence of values that \<open>rand()\<close>
  returns after \<open>srand(12345)\<close>, and \<open>RAND_MAX\<close>.
\<close>

record externs =
  ext_to_f :: to_f_fn
  ext_to_rgb :: to_rgb_fn
  ext_colordifference :: "f_pixel \<Rightarrow> f_pixel \<Rightarrow> real"
  ext_nearest_search :: "colormap \<Rightarrow> f_pixel \<Rightarrow> real \<Rightarrow> nat \<times> real"
  ext_rand :: "nat \<Rightarrow> real"
  ext_RAND_MAX :: real
  ext_MAX_DIFF :: real

text \<open>\<open>distance_from_closest_other_color\<close>, \<open>min_4\<close> and \<open>get_dithered_pixel\<close>.\<close>

definition distance_from_closest_other_color :: "externs \<Rightarrow> colormap \<Rightarrow> nat \<Rightarrow> real" where
  "distance_from_closest_other_color ext cmap i =
     fold (\<lambda>j second_best.
             if i = j then second_best
             else (let diff = ext_colordifference ext (acolor (cmap ! i)) (acolor (cmap ! j))
                   in if diff \<le> second_best then diff else second_best))
       [0..<length cmap] (ext_MAX_DIFF ext)"

definition min_4 :: "real \<Rightarrow> real \<Rightarrow> real \<Rightarrow> real \<Rightarrow> real" where
  "min_4 a b c d = (let x = min a b; y = min c d in min x y)"

definition get_dithered_pixel :: "real \<Rightarrow> real \<Rightarrow> f_pixel \<Rightarrow> f_pixel \<Rightarrow> f_pixel" where
  "get_dithered_pixel dither_level max_dither_error thiserr px =
     (let sr = f_r thiserr * dither_level;
          sg = f_g thiserr * dither_level;
          sb = f_b thiserr * dither_level;
          sa = f_a thiserr * dither_level;
          ratio = min_4 (if sr < 0 then f_r px / - sr else if sr > 0 then (1 - f_r px) / sr else 1)
                        (if sg < 0 then f_g px / - sg else if sg > 0 then (1 - f_g px) / sg else 1)
                        (if sb < 0 then f_b px / - sb else if sb > 0 then (1 - f_b px) / sb else 1)
                        (if sa < 0 then f_a px / - sa else if sa > 0 then (1 - f_a px) / sa else 1);
          dither_error = sr * sr + sg * sg + sb * sb + sa * sa
      in if \<not> dither_error > max_dither_error \<and> dither_error < 2 / 256 / 256 then px
         else
           (let ratio1 = (if dither_error > max_dither_error then ratio * 0.8 else ratio);
                ratio2 = (if ratio1 > 1 then 1 else ratio1);
                ratio3 = (if ratio2 < 0 then 0 else ratio2)
            in \<lparr>f_a = f_a px + sa * ratio3,
                f_r = f_r px + sr * ratio3,
                f_g = f_g px + sg * ratio3,
                f_b = f_b px + sb * ratio3\<rparr>))"

text \<open>
  \<open>remap_to_palette_floyd\<close>, the block "Propagate Floyd-Steinberg error terms".
  \<open>add_error errs k err w\<close> is the four statements \<open>errs[k].c += (err.c * w) / 16.0f\<close>
  for the channels \<open>c\<close>; the error cell of the pixel in column \<open>col\<close> is
  \<open>col + 1\<close>.
\<close>

definition add_error :: "f_pixel list \<Rightarrow> nat \<Rightarrow> f_pixel \<Rightarrow> real \<Rightarrow> f_pixel list" where
  "add_error errs k err w =
     errs[k := \<lparr>f_a = f_a (errs ! k) + (f_a err * w) / 16,
                f_r = f_r (errs ! k) + (f_r err * w) / 16,
                f_g = f_g (errs ! k) + (f_g err * w) / 16,
                f_b = f_b (errs ! k) + (f_b err * w) / 16\<rparr>]"

definition propagate ::
  "bool \<Rightarrow> nat \<Rightarrow> f_pixel \<Rightarrow> f_pixel list \<times> f_pixel list \<Rightarrow> f_pixel list \<times> f_pixel list" where
  "propagate fs_direction col err errs =
     (case errs of (thiserr, nexterr) \<Rightarrow>
        if fs_direction then
          (add_error thiserr (col + 2) err 7,
           add_error (add_error (add_error nexterr col err 3) (col + 1) err 5) (col + 2) err 1)
        else
          (add_error thiserr col err 7,
           add_error (add_error (add_error nexterr col err 1) (col + 1) err 5) (col + 2) err 3))"

text \<open>
  The constants of one run of \<open>remap_to_palette_floyd\<close>, set before its loops: a
  \<open>floyd_frame\<close>. The state of the loops is the output plane, \<open>thiserr\<close> and
  \<open>nexterr\<close>. Rows of the output plane are taken not to overlap. \<open>floyd_match\<close> is
  the body of the inner loop up to the scaling of the residual error: it returns the
  palette index and the scaled error; \<open>floyd_pixel\<close> is the whole body.
\<close>

record floyd_frame =
  fr_ext :: externs
  fr_image :: liq_image
  fr_map :: colormap
  fr_min_opaque_val :: real
  fr_dither_map :: "real list option"
  fr_output_image_is_remapped :: bool
  fr_max_dither_error :: real
  fr_transparent_ind :: nat
  fr_difference_tolerance :: "real list"

type_synonym floyd_state = "index_plane \<times> f_pixel list \<times> f_pixel list"

definition floyd_match :: "floyd_frame \<Rightarrow> nat \<Rightarrow> nat \<Rightarrow> index_plane \<Rightarrow> f_pixel \<Rightarrow> nat \<times> f_pixel" where
  "floyd_match fr row col output_pixels thiserr_px =
     (let cols = img_width (fr_image fr);
          dither_level = (case fr_dither_map fr of
                            Some dmap \<Rightarrow> dmap ! (row * cols + col) | None \<Rightarrow> 15 / 16);
          spx = get_dithered_pixel dither_level (fr_max_dither_error fr) thiserr_px
                  (ext_to_f (fr_ext fr) (img_gamma (fr_image fr))
                     (img_memory (fr_image fr) ! (img_rows (fr_image fr) ! row + col)));
          ind = (if f_a spx < 1 / 256 then fr_transparent_ind fr
                 else
                   (let curr_ind = unat (output_pixels ! row ! col)
                    in if fr_output_image_is_remapped fr
                          \<and> ext_colordifference (fr_ext fr) (acolor (fr_map fr ! curr_ind)) spx
                              < fr_difference_tolerance fr ! curr_ind
                       then curr_ind
                       else fst (ext_nearest_search (fr_ext fr) (fr_map fr) spx
                                   (fr_min_opaque_val fr))));
          xp = acolor (fr_map fr ! ind);
          err = \<lparr>f_a = f_a spx - f_a xp, f_r = f_r spx - f_r xp,
                 f_g = f_g spx - f_g xp, f_b = f_b spx - f_b xp\<rparr>;
          dither_level1 =
            (if f_r err * f_r err + f_g err * f_g err + f_b err * f_b err + f_a err * f_a err
                  > fr_max_dither_error fr
             then dither_level * 0.75 else dither_level);
          colorimp = (3 + f_a (acolor (fr_map fr ! ind))) / 4 * dither_level1;
          err1 = \<lparr>f_a = f_a err * dither_level1, f_r = f_r err * colorimp,
                  f_g = f_g err * colorimp, f_b = f_b err * colorimp\<rparr>
      in (ind, err1))"

definition floyd_pixel :: "floyd_frame \<Rightarrow> nat \<Rightarrow> bool \<Rightarrow> nat \<Rightarrow> floyd_state \<Rightarrow> floyd_state" where
  "floyd_pixel fr row fs_direction col state =
     (case state of (output_pixels, thiserr, nexterr) \<Rightarrow>
        (case floyd_match fr row col output_pixels (thiserr ! (col + 1)) of (ind, err) \<Rightarrow>
           (case propagate fs_direction col err (thiserr, nexterr) of (thiserr1, nexterr1) \<Rightarrow>
              (output_pixels[row := (output_pixels ! row)[col := of_nat ind]],
               thiserr1, nexterr1))))"

text \<open>
  The \<open>do ... while(1)\<close> loop over the columns of a row, for any loop body, and the
  loop over the rows with its swap of the two error rows and its flip of
  \<open>fs_direction\<close>.
\<close>

function floyd_cols :: "nat \<Rightarrow> (nat \<Rightarrow> 's \<Rightarrow> 's) \<Rightarrow> bool \<Rightarrow> nat \<Rightarrow> 's \<Rightarrow> 's" where
  "floyd_cols cols body fs_direction col state =
     (let state1 = body col state in
      if fs_direction
      then (if col + 1 \<ge> cols then state1 else floyd_cols cols body fs_direction (col + 1) state1)
      else (if col \<le> 0 then state1 else floyd_cols cols body fs_direction (col - 1) state1))"
  by pat_completeness auto
termination
  by (relation "measure (\<lambda>(cols, body, fs_direction, col, state).
                  if fs_direction then cols - col else col)") auto

declare floyd_cols.simps [simp del]

definition zero_error :: f_pixel where
  "zero_error = \<lparr>f_a = 0, f_r = 0, f_g = 0, f_b = 0\<rparr>"

function floyd_rows ::
  "nat \<Rightarrow> nat \<Rightarrow> (nat \<Rightarrow> bool \<Rightarrow> nat \<Rightarrow> floyd_state \<Rightarrow> floyd_state) \<Rightarrow> nat \<Rightarrow> bool \<Rightarrow> floyd_state
     \<Rightarrow> floyd_state" where
  "floyd_rows rows cols pixel row fs_direction state =
     (if row < rows then
        (case state of (output_pixels, thiserr, nexterr) \<Rightarrow>
           (let nexterr0 = replicate (cols + 2) zero_error;
                col = (if fs_direction then 0 else cols - 1)
            in case floyd_cols cols (pixel row fs_direction) fs_direction col
                      (output_pixels, thiserr, nexterr0) of
                 (output_pixels1, thiserr1, nexterr1) \<Rightarrow>
                   floyd_rows rows cols pixel (row + 1) (\<not> fs_direction)
                     (output_pixels1, nexterr1, thiserr1)))
      else state)"
  by pat_completeness auto
termination
  by (relation "measure (\<lambda>(rows, cols, pixel, row, fs_direction, state). rows - row)") auto

declare floyd_rows.simps [simp del]

text \<open>
  \<open>remap_to_palette_floyd\<close>. The remappers read every pixel of the image and write
  every cell of the output plane (\<open>plane_covers\<close>); the dithered one reads the dither map
  at every pixel, and its \<open>do ... while\<close> loop handles column 0 of every row even when
  the image has no columns: \<open>remap_fits\<close> says that these accesses are in bounds. An
  index that \<open>nearest_search\<close> returns is taken to be an index of the colormap, as its
  contract says. The parameter \<open>use_dither_map\<close> of the source is \<open>use_dmap\<close> here.
\<close>

definition plane_covers :: "index_plane \<Rightarrow> liq_image \<Rightarrow> bool" where
  "plane_covers output_pixels input_image \<longleftrightarrow>
     img_height input_image \<le> length output_pixels \<and>
     (\<forall>row < img_height input_image. img_width input_image \<le> length (output_pixels ! row))"

definition remap_fits :: "liq_image \<Rightarrow> index_plane \<Rightarrow> real list option \<Rightarrow> bool" where
  "remap_fits input_image output_pixels dmap \<longleftrightarrow>
     (img_height input_image = 0 \<or> 1 \<le> img_width input_image) \<and>
     rows_in_memory input_image \<and> plane_covers output_pixels input_image \<and>
     (case dmap of None \<Rightarrow> True
      | Some d \<Rightarrow> img_width input_image * img_height input_image \<le> length d)"

definition initial_error :: "externs \<Rightarrow> nat \<Rightarrow> f_pixel list" where
  "initial_error ext cols =
     map (\<lambda>col. let rand_max = ext_RAND_MAX ext in
            \<lparr>f_a = (ext_rand ext (4 * col + 3) - rand_max / 2) / rand_max / 255,
             f_r = (ext_rand ext (4 * col) - rand_max / 2) / rand_max / 255,
             f_g = (ext_rand ext (4 * col + 1) - rand_max / 2) / rand_max / 255,
             f_b = (ext_rand ext (4 * col + 2) - rand_max / 2) / rand_max / 255\<rparr>)
       [0..<cols + 2]"

definition floyd_setup ::
  "externs \<Rightarrow> liq_image \<Rightarrow> colormap \<Rightarrow> real \<Rightarrow> bool \<Rightarrow> bool \<Rightarrow> real \<Rightarrow> floyd_frame" where
  "floyd_setup ext input_image cmap min_opaque_v use_dmap output_image_is_remapped
       max_dither_error =
     \<lparr>fr_ext = ext, fr_image = input_image, fr_map = cmap, fr_min_opaque_val = min_opaque_v,
      fr_dither_map =
        (if use_dmap
         then (case img_dither_map input_image of
                 Some d \<Rightarrow> Some d | None \<Rightarrow> img_edges input_image)
         else None),
      fr_output_image_is_remapped = output_image_is_remapped,
      fr_max_dither_error = max_dither_error,
      fr_transparent_ind =
        fst (ext_nearest_search ext cmap \<lparr>f_a = 0, f_r = 0, f_g = 0, f_b = 0\<rparr> min_opaque_v),
      fr_difference_tolerance =
        (if output_image_is_remapped
         then map (\<lambda>i. distance_from_closest_other_color ext cmap i / 4) [0..<length cmap]
         else [])\<rparr>"

definition remap_to_palette_floyd ::
  "externs \<Rightarrow> liq_image \<Rightarrow> index_plane \<Rightarrow> colormap \<Rightarrow> real \<Rightarrow> bool \<Rightarrow> bool \<Rightarrow> real
     \<Rightarrow> fault + index_plane" where
  "remap_to_palette_floyd ext input_image output_pixels cmap min_opaque_v use_dmap
       output_image_is_remapped max_dither_error =
     (let rows = img_height input_image; cols = img_width input_image;
          fr = floyd_setup ext input_image cmap min_opaque_v use_dmap output_image_is_remapped
                 max_dither_error
      in if \<not> remap_fits input_image output_pixels (fr_dither_map fr) then Inl Out_Of_Bounds
         else
           (let thiserr = initial_error ext cols;
                nexterr = replicate (cols + 2) zero_error
            in Inr (fst (floyd_rows rows cols (floyd_pixel fr) 0 True
                           (output_pixels, thiserr, nexterr)))))"

text \<open>
  The dithered remapper in the words of the specification. A pixel in column \<open>col\<close>
  has the error cell \<open>col + 1\<close>; the cell ahead of it in the travel direction is
  \<open>fs_ahead\<close>, the one behind it \<open>fs_behind\<close>. \<open>fs_distribute\<close> gives 7/16 of the
  error to the cell ahead in the current row, and 3/16, 5/16 and 1/16 to the cells behind,
  below and ahead in the next row. \<open>serpentine_columns\<close> is the order of the columns
  of a row, \<open>serpentine_row\<close> handles a row left to right when its number is even and
  right to left when it is odd, and \<open>floyd_serpentine\<close> handles the rows from the
  first to the last.
\<close>

definition fs_ahead :: "bool \<Rightarrow> nat \<Rightarrow> nat" where
  "fs_ahead left_to_right col = (if left_to_right then col + 2 else col)"

definition fs_behind :: "bool \<Rightarrow> nat \<Rightarrow> nat" where
  "fs_behind left_to_right col = (if left_to_right then col else col + 2)"

definition plus_scaled :: "f_pixel \<Rightarrow> real \<Rightarrow> f_pixel \<Rightarrow> f_pixel" where
  "plus_scaled p w err =
     \<lparr>f_a = f_a p + w * f_a err, f_r = f_r p + w * f_r err,
      f_g = f_g p + w * f_g err, f_b = f_b p + w * f_b err\<rparr>"

definition fs_distribute ::
  "bool \<Rightarrow> nat \<Rightarrow> f_pixel \<Rightarrow> f_pixel list \<times> f_pixel list \<Rightarrow> f_pixel list \<times> f_pixel list" where
  "fs_distribute left_to_right col err errs =
     (case errs of (current_row, next_row) \<Rightarrow>
        (map (\<lambda>k. plus_scaled (current_row ! k)
                     (if k = fs_ahead left_to_right col then 7 / 16 else 0) err)
           [0..<length current_row],
         map (\<lambda>k. plus_scaled (next_row ! k)
                     (if k = fs_behind left_to_right col then 3 / 16
                      else if k = col + 1 then 5 / 16
                      else if k = fs_ahead left_to_right col then 1 / 16 else 0) err)
           [0..<length next_row]))"

definition serpentine_columns :: "bool \<Rightarrow> nat \<Rightarrow> nat list" where
  "serpentine_columns left_to_right cols = (if left_to_right then [0..<cols] else rev [0..<cols])"

definition serpentine_pixel :: "floyd_frame \<Rightarrow> nat \<Rightarrow> bool \<Rightarrow> nat \<Rightarrow> floyd_state \<Rightarrow> floyd_state" where
  "serpentine_pixel fr row left_to_right col state =
     (case state of (output_pixels, current_row, next_row) \<Rightarrow>
        (case floyd_match fr row col output_pixels (current_row ! (col + 1)) of (ind, err) \<Rightarrow>
           (case fs_distribute left_to_right col err (current_row, next_row) of
              (current_row1, next_row1) \<Rightarrow>
                (output_pixels[row := (output_pixels ! row)[col := of_nat ind]],
                 current_row1, next_row1))))"

definition serpentine_row :: "floyd_frame \<Rightarrow> nat \<Rightarrow> nat \<Rightarrow> floyd_state \<Rightarrow> floyd_state" where
  "serpentine_row fr cols row state =
     (case state of (output_pixels, current_row, spare) \<Rightarrow>
        (case fold (serpentine_pixel fr row (even row)) (serpentine_columns (even row) cols)
                (output_pixels, current_row, replicate (cols + 2) zero_error) of
           (output_pixels1, current_row1, next_row1) \<Rightarrow>
             (output_pixels1, next_row1, current_row1)))"

definition floyd_serpentine ::
  "externs \<Rightarrow> liq_image \<Rightarrow> index_plane \<Rightarrow> colormap \<Rightarrow> real \<Rightarrow> bool \<Rightarrow> bool \<Rightarrow> real \<Rightarrow> index_plane" where
  "floyd_serpentine ext input_image output_pixels cmap min_opaque_v use_dmap
       output_image_is_remapped max_dither_error =
     fst (fold (serpentine_row
                 (floyd_setup ext input_image cmap min_opaque_v use_dmap
                    output_image_is_remapped max_dither_error)
                 (img_width input_image))
            [0..<img_height input_image]
            (output_pixels, initial_error ext (img_width input_image),
             replicate (img_width input_image + 2) zero_error))"

text \<open>Both error rows have \<open>cols + 2\<close> cells.\<close>

definition error_rows_sized :: "nat \<Rightarrow> floyd_state \<Rightarrow> bool" where
  "error_rows_sized cols state \<longleftrightarrow>
     length (fst (snd state)) = cols + 2 \<and> length (snd (snd state)) = cols + 2"

text \<open>
  \<open>viter_init\<close>, \<open>viter_update_color\<close> and \<open>viter_finalize\<close> (viter.c) are not
  included: they are parameters, over any type \<open>'v\<close> of the accumulated
  state.
\<close>

record 'v viter_ops =
  viter_init :: "colormap \<Rightarrow> 'v"
  viter_update_color :: "f_pixel \<Rightarrow> real \<Rightarrow> colormap \<Rightarrow> nat \<Rightarrow> nat \<Rightarrow> 'v \<Rightarrow> 'v"
  viter_finalize :: "colormap \<Rightarrow> 'v \<Rightarrow> colormap"

text \<open>
  \<open>struct liq_remapping_result\<close>; its fields carry the prefix \<open>rr_\<close>. \<open>liq_remap\<close>
  creates it, \<open>set_rounded_palette\<close> fills its integer palette.
\<close>

record liq_remapping_result =
  rr_palette :: colormap
  rr_int_palette :: "rgb_pixel list"
  rr_gamma :: real
  rr_palette_error :: real
  rr_min_opaque_val :: real
  rr_dither_level :: real
  rr_use_dither_map :: bool

definition liq_remap :: "liq_result \<Rightarrow> liq_remapping_result" where
  "liq_remap result =
     \<lparr>rr_palette = res_palette result, rr_int_palette = [],
      rr_gamma = res_gamma result, rr_palette_error = res_palette_error result,
      rr_min_opaque_val = res_min_opaque_val result,
      rr_dither_level = res_dither_level result,
      rr_use_dither_map = res_use_dither_map result\<rparr>"

definition set_rounded_palette :: "externs \<Rightarrow> liq_remapping_result \<Rightarrow> liq_remapping_result" where
  "set_rounded_palette ext result =
     result\<lparr>rr_palette :=
              map (\<lambda>item. item\<lparr>acolor :=
                     ext_to_f ext (rr_gamma result)
                       (ext_to_rgb ext (rr_gamma result) (acolor item))\<rparr>)
                (rr_palette result),
            rr_int_palette :=
              map (\<lambda>item. ext_to_rgb ext (rr_gamma result) (acolor item)) (rr_palette result)\<rparr>"

text \<open>
  \<open>remap_to_palette\<close>, the plain remapper; \<open>remap_pixel\<close> is the body of its loops,
  run in the order of a single thread. The result is the returned error, the output plane
  and the colormap as \<open>viter_finalize\<close> leaves it.
\<close>

definition remap_pixel ::
  "externs \<Rightarrow> 'v viter_ops \<Rightarrow> liq_image \<Rightarrow> colormap \<Rightarrow> real \<Rightarrow> nat \<Rightarrow> nat \<Rightarrow> nat
     \<Rightarrow> index_plane \<times> int \<times> real \<times> 'v \<Rightarrow> index_plane \<times> int \<times> real \<times> 'v" where
  "remap_pixel ext vops input_image cmap min_opaque_v transparent_ind row col state =
     (case state of (output_pixels, remapped_pixels, remapping_error, average_color) \<Rightarrow>
        (let px = ext_to_f ext (img_gamma input_image)
                    (img_memory input_image ! (img_rows input_image ! row + col))
         in case (if f_a px < 1 / 256 then (transparent_ind, remapped_pixels, remapping_error)
                  else (case ext_nearest_search ext cmap px min_opaque_v of
                          (match, diff) \<Rightarrow> (match, remapped_pixels + 1, remapping_error + diff))) of
              (match, remapped_pixels1, remapping_error1) \<Rightarrow>
                (output_pixels[row := (output_pixels ! row)[col := of_nat match]],
                 remapped_pixels1, remapping_error1,
                 viter_update_color vops px 1 cmap match 0 average_color)))"

definition remap_to_palette ::
  "externs \<Rightarrow> 'v viter_ops \<Rightarrow> liq_image \<Rightarrow> index_plane \<Rightarrow> colormap \<Rightarrow> real
     \<Rightarrow> fault + real \<times> index_plane \<times> colormap" where
  "remap_to_palette ext vops input_image output_pixels cmap min_opaque_v =
     (let rows = img_height input_image; cols = img_width input_image
      in if \<not> (rows_in_memory input_image \<and> plane_covers output_pixels input_image)
         then Inl Out_Of_Bounds
         else
           (let transparent_ind =
                  fst (ext_nearest_search ext cmap \<lparr>f_a = 0, f_r = 0, f_g = 0, f_b = 0\<rparr>
                         min_opaque_v)
            in case fold (\<lambda>row. fold (remap_pixel ext vops input_image cmap min_opaque_v
                                         transparent_ind row) [0..<cols])
                      [0..<rows] (output_pixels, 0, 0, viter_init vops cmap) of
                 (output_pixels1, remapped_pixels, remapping_error, average_color) \<Rightarrow>
                   Inr (remapping_error / real_of_int (max 1 remapped_pixels),
                        output_pixels1, viter_finalize vops cmap average_color)))"

text \<open>
  \<open>liq_write_remapped_image_rows\<close>. \<open>dither_error_limit\<close> is the last argument of its
  call of \<open>remap_to_palette_floyd\<close>, \<open>MAX(remapping_error*2.4, 16.f/256.f)\<close>;
  \<open>first_pass\<close> is the block under \<open>if (generate_dither_map)\<close>;
  \<open>store_remapping_error\<close> is the final \<open>if (result->palette_error < 0)\<close>.
\<close>

definition dither_error_limit :: "real \<Rightarrow> real" where
  "dither_error_limit remapping_error = max (remapping_error * 2.4) (16 / 256)"

definition store_remapping_error :: "liq_remapping_result \<Rightarrow> real \<Rightarrow> liq_remapping_result" where
  "store_remapping_error result remapping_error =
     (if rr_palette_error result < 0 then result\<lparr>rr_palette_error := remapping_error\<rparr>
      else result)"

definition first_pass ::
  "externs \<Rightarrow> 'v viter_ops \<Rightarrow> liq_remapping_result \<Rightarrow> liq_image \<Rightarrow> index_plane
     \<Rightarrow> fault + real \<times> index_plane \<times> colormap \<times> liq_image" where
  "first_pass ext vops result input_image row_pointers =
     (case remap_to_palette ext vops input_image row_pointers (rr_palette result)
             (rr_min_opaque_val result) of
        Inl e \<Rightarrow> Inl e
      | Inr (remapping_error, row_pointers1, cmap1) \<Rightarrow>
          (case update_dither_map row_pointers1 input_image of
             Inl e \<Rightarrow> Inl e
           | Inr input_image1 \<Rightarrow> Inr (remapping_error, row_pointers1, cmap1, input_image1)))"

definition liq_write_remapped_image_rows ::
  "externs \<Rightarrow> 'v viter_ops \<Rightarrow> liq_remapping_result \<Rightarrow> liq_image \<Rightarrow> index_plane
     \<Rightarrow> fault + liq_error \<times> liq_remapping_result \<times> liq_image \<times> index_plane" where
  "liq_write_remapped_image_rows ext vops result input_image row_pointers =
     (let remapping_error = rr_palette_error result in
      if rr_dither_level result = 0 then
        (let result1 = set_rounded_palette ext result in
         case remap_to_palette ext vops input_image row_pointers (rr_palette result1)
                (rr_min_opaque_val result1) of
           Inl e \<Rightarrow> Inl e
         | Inr (remapping_error1, row_pointers1, cmap1) \<Rightarrow>
             Inr (LIQ_OK,
                  store_remapping_error (result1\<lparr>rr_palette := cmap1\<rparr>) remapping_error1,
                  input_image, row_pointers1))
      else
        (let generate_dither_map =
               (rr_use_dither_map result
                \<and> img_edges input_image \<noteq> None \<and> img_dither_map input_image = None)
         in case (if generate_dither_map
                  then first_pass ext vops result input_image row_pointers
                  else Inr (remapping_error, row_pointers, rr_palette result, input_image)) of
              Inl e \<Rightarrow> Inl e
            | Inr (remapping_error1, row_pointers1, cmap1, input_image1) \<Rightarrow>
                (let result1 = set_rounded_palette ext (result\<lparr>rr_palette := cmap1\<rparr>) in
                 case remap_to_palette_floyd ext input_image1 row_pointers1 (rr_palette result1)
                        (rr_min_opaque_val result1) (rr_use_dither_map result1)
                        generate_dither_map (dither_error_limit remapping_error1) of
                   Inl e \<Rightarrow> Inl e
                 | Inr row_pointers2 \<Rightarrow>
                     Inr (LIQ_OK, store_remapping_error result1 remapping_error1,
                          input_image1, row_pointers2))))"

text \<open>
  A call of the dithered remapper with a given \<open>max_dither_error\<close>, on the palette
  rounded by \<open>set_rounded_palette\<close>, and the end of \<open>liq_write_remapped_image_rows\<close>
  after it.
\<close>

definition dithered_call ::
  "externs \<Rightarrow> liq_remapping_result \<Rightarrow> real \<Rightarrow> index_plane \<Rightarrow> colormap \<Rightarrow> liq_image \<Rightarrow> bool \<Rightarrow> real
     \<Rightarrow> fault + liq_error \<times> liq_remapping_result \<times> liq_image \<times> index_plane" where
  "dithered_call ext result base_error row_pointers cmap input_image output_image_is_remapped
       max_dither_error =
     (let result1 = set_rounded_palette ext (result\<lparr>rr_palette := cmap\<rparr>) in
      case remap_to_palette_floyd ext input_image row_pointers (rr_palette result1)
             (rr_min_opaque_val result) (rr_use_dither_map result)
             output_image_is_remapped max_dither_error of
        Inl e \<Rightarrow> Inl e
      | Inr row_pointers2 \<Rightarrow>
          Inr (LIQ_OK, store_remapping_error result1 base_error, input_image, row_pointers2))"

section \<open>Properties of the setters\<close>

lemma divide_by_ge_one:
  fixes x c :: real
  shows "1 \<le> x \<Longrightarrow> 0 \<le> c \<Longrightarrow> c / x \<le> c"
  by (simp add: divide_le_eq mult_le_cancel_left1)

lemma quality_curve_pos:
  assumes "0 \<le> q" "q \<le> 100"
  shows "0 < quality_curve q"
proof -
  have "0 < (210 + real_of_int q) powr 1.2" using assms by simp
  moreover have "0 < (100.1 - real_of_int q) / 100" using assms by simp
  ultimately show ?thesis by (simp add: quality_curve_def)
qed

lemma quality_curve_le:
  assumes "0 \<le> q"
  shows "quality_curve q \<le> 2.5 * ((100.1 - real_of_int q) / 100) \<or> 100.1 < real_of_int q"
proof (cases "100.1 < real_of_int q")
  case True
  then show ?thesis by simp
next
  case False
  have "1 \<le> (210 + real_of_int q) powr 1.2"
    using assms by (intro ge_one_powr_ge_zero) simp_all
  then have "2.5 / ((210 + real_of_int q) powr 1.2) \<le> 2.5"
    by (intro divide_by_ge_one) simp_all
  moreover have "0 \<le> (100.1 - real_of_int q) / 100" using False by simp
  ultimately have "2.5 / ((210 + real_of_int q) powr 1.2) * ((100.1 - real_of_int q) / 100)
      \<le> 2.5 * ((100.1 - real_of_int q) / 100)"
    by (rule mult_right_mono)
  then show ?thesis by (simp add: quality_curve_def)
qed

lemma quality_to_mse_pos:
  assumes "0 < MAX_DIFF" "0 \<le> q" "q \<le> 100"
  shows "0 < quality_to_mse MAX_DIFF q"
proof (cases "q = 0")
  case True
  then show ?thesis using assms by (simp add: quality_to_mse_def)
next
  case False
  have "quality_to_mse MAX_DIFF q = quality_curve q"
    using False by (simp add: quality_to_mse_def quality_curve_def)
  then show ?thesis using quality_curve_pos [OF assms(2,3)] by simp
qed

text \<open>
  C7, as the code has it: for a quality pair that the setter accepts, the stored target and
  maximum error are the curve \<open>2.5/(210+q)^1.2 * (100.1-q)/100\<close> at every quality from 1 to
  100, and \<open>MAX_DIFF\<close> at quality 0, which \<open>quality_to_mse\<close> tests for first.
\<close>

theorem liq_set_quality_curve:
  assumes "0 \<le> minimum" "minimum \<le> target" "target \<le> 100"
  shows "liq_set_quality MAX_DIFF attr target minimum =
           (LIQ_OK, attr\<lparr>target_mse := (if target = 0 then MAX_DIFF else quality_curve target),
                          max_mse := (if minimum = 0 then MAX_DIFF else quality_curve minimum)\<rparr>)"
  using assms by (simp add: liq_set_quality_def quality_to_mse_def quality_curve_def)

theorem liq_set_quality_curve_witness:
  "liq_set_quality 7 \<lparr>target_mse = 0, max_mse = 7, voronoi_iteration_limit = 0,
       min_opaque_val = 1, last_index_transparent = False, use_contrast_maps = True,
       use_dither_map = True, max_colors = 256, max_histogram_entries = 0,
       min_posterization = 0, voronoi_iterations = 0, feedback_loop_trials = 0\<rparr> 80 0
     = (LIQ_OK, \<lparr>target_mse = quality_curve 80, max_mse = 7, voronoi_iteration_limit = 0,
       min_opaque_val = 1, last_index_transparent = False, use_contrast_maps = True,
       use_dither_map = True, max_colors = 256, max_histogram_entries = 0,
       min_posterization = 0, voronoi_iterations = 0, feedback_loop_trials = 0\<rparr>)"
  using liq_set_quality_curve [of 0 80 7] by simp

lemma quality_zero_off_curve:
  assumes "3 \<le> MAX_DIFF"
  shows "quality_to_mse MAX_DIFF 0 \<noteq> quality_curve 0"
proof -
  have "quality_curve 0 \<le> 2.5 * ((100.1 - real_of_int 0) / 100)"
    using quality_curve_le [of 0] by simp
  then have "quality_curve 0 < 3" by simp
  then show ?thesis using assms by (simp add: quality_to_mse_def)
qed

text \<open>
  C7 as the specification states it fails at quality 0. \<open>MAX_DIFF\<close> is the starting
  value of every search for a least colour difference, so it is not below 3; the curve at
  quality 0 is below 3. With \<open>MAX_DIFF = 10^20\<close> the error stored for quality 0 is not
  the value of the curve.
\<close>

theorem quality_zero_counterexample:
  "fst (liq_set_quality (10 ^ 20) \<lparr>target_mse = 0, max_mse = 0, voronoi_iteration_limit = 0,
       min_opaque_val = 1, last_index_transparent = False, use_contrast_maps = True,
       use_dither_map = True, max_colors = 256, max_histogram_entries = 0,
       min_posterization = 0, voronoi_iterations = 0, feedback_loop_trials = 0\<rparr> 0 0) = LIQ_OK
   \<and> target_mse (snd (liq_set_quality (10 ^ 20) \<lparr>target_mse = 0, max_mse = 0,
       voronoi_iteration_limit = 0,
       min_opaque_val = 1, last_index_transparent = False, use_contrast_maps = True,
       use_dither_map = True, max_colors = 256, max_histogram_entries = 0,
       min_posterization = 0, voronoi_iterations = 0, feedback_loop_trials = 0\<rparr> 0 0))
     \<noteq> 2.5 / ((210 + real_of_int 0) powr 1.2) * ((100.1 - real_of_int 0) / 100)"
proof -
  have "quality_to_mse (10 ^ 20) 0 \<noteq> quality_curve 0"
    by (rule quality_zero_off_curve) simp
  then show ?thesis
    by (simp add: liq_set_quality_def quality_curve_def)
qed

text \<open>
  C6: a result as \<open>pngquant_quantize\<close> creates it has dithering level 0. Setting the
  level to 2 is accepted and stored, because the check reads the stored level; once 2 is
  stored, the in-range argument 0.5 is rejected.
\<close>

theorem liq_set_dithering_level_accepts_out_of_range:
  "liq_set_dithering_level \<lparr>res_palette = [], res_gamma = 0.45455, res_palette_error = 0,
       res_min_opaque_val = 1, res_dither_level = 0, res_use_dither_map = False\<rparr> 2
     = (LIQ_OK, \<lparr>res_palette = [], res_gamma = 0.45455, res_palette_error = 0,
       res_min_opaque_val = 1, res_dither_level = 2, res_use_dither_map = False\<rparr>)
   \<and> liq_set_dithering_level \<lparr>res_palette = [], res_gamma = 0.45455, res_palette_error = 0,
       res_min_opaque_val = 1, res_dither_level = 2, res_use_dither_map = False\<rparr> 0.5
     = (LIQ_VALUE_OUT_OF_RANGE, \<lparr>res_palette = [], res_gamma = 0.45455, res_palette_error = 0,
       res_min_opaque_val = 1, res_dither_level = 2, res_use_dither_map = False\<rparr>)"
  by (simp add: liq_set_dithering_level_def)

section \<open>Properties of the palette ordering\<close>

lemma mset_qsort_place: "mset (qsort_place c x xs) = add_mset x (mset xs)"
  by (induction xs) auto

lemma mset_qsort_fold: "mset (foldr (qsort_place c) xs []) = mset xs"
  by (induction xs) (auto simp: mset_qsort_place)

lemma mset_qsort: "mset (qsort xs n c) = mset xs"
proof -
  have "mset (take n xs) + mset (drop n xs) = mset xs"
    by (metis append_take_drop_id mset_append)
  then show ?thesis by (simp add: qsort_def mset_qsort_fold)
qed

lemma set_qsort_place: "set (qsort_place c x xs) = insert x (set xs)"
  using mset_qsort_place [of c x xs] by (metis set_mset_add_mset_insert set_mset_mset)

lemma ascending_qsort_place:
  "ascending_popularity xs \<Longrightarrow> ascending_popularity (qsort_place compare_popularity x xs)"
  by (induction xs) (auto simp: ascending_popularity_def set_qsort_place compare_popularity_def)

lemma ascending_qsort_fold:
  "ascending_popularity (foldr (qsort_place compare_popularity) xs [])"
  by (induction xs) (auto simp: ascending_qsort_place, simp add: ascending_popularity_def)

lemma move_transparent_partitions:
  assumes "n \<le> i" "i \<le> length m"
    and "\<forall>k<n. has_transparency (m ! k)"
    and "\<forall>k. n \<le> k \<and> k < i \<longrightarrow> \<not> has_transparency (m ! k)"
  shows "\<exists>n' m'. move_transparent m i n = Inr (n', m') \<and> mset m' = mset m \<and> n' \<le> length m'
           \<and> (\<forall>k<n'. has_transparency (m' ! k))
           \<and> (\<forall>k. n' \<le> k \<and> k < length m' \<longrightarrow> \<not> has_transparency (m' ! k))"
  using assms
proof (induction m i n rule: move_transparent.induct)
  case (1 cmap i n)
  show ?case
  proof (cases "i < length cmap")
    case False
    then have "move_transparent cmap i n = Inr (n, cmap)"
      by (subst move_transparent.simps) simp
    then show ?thesis using "1.prems" False by simp
  next
    case inside: True
    show ?thesis
    proof (cases "f_a (acolor (cmap ! i)) < 255 / 256")
      case False
      then have nt: "\<not> has_transparency (cmap ! i)" by (simp add: has_transparency_def)
      have step: "\<forall>k. n \<le> k \<and> k < i + 1 \<longrightarrow> \<not> has_transparency (cmap ! k)"
        using "1.prems"(4) nt by (metis Suc_eq_plus1 less_Suc_eq)
      have "\<exists>n' m'. move_transparent cmap (i + 1) n = Inr (n', m') \<and> mset m' = mset cmap
           \<and> n' \<le> length m' \<and> (\<forall>k<n'. has_transparency (m' ! k))
           \<and> (\<forall>k. n' \<le> k \<and> k < length m' \<longrightarrow> \<not> has_transparency (m' ! k))"
        using "1.IH"(3) False "1.prems" inside step by simp
      moreover have "move_transparent cmap i n = move_transparent cmap (i + 1) n"
        using inside False by (subst move_transparent.simps) simp
      ultimately show ?thesis by simp
    next
      case tr: True
      then have t: "has_transparency (cmap ! i)" by (simp add: has_transparency_def)
      show ?thesis
      proof (cases "i = n")
        case True
        have step: "\<forall>k<n + 1. has_transparency (cmap ! k)"
          using "1.prems"(3) t True by (metis Suc_eq_plus1 less_Suc_eq)
        have "\<exists>n' m'. move_transparent cmap (i + 1) (n + 1) = Inr (n', m') \<and> mset m' = mset cmap
           \<and> n' \<le> length m' \<and> (\<forall>k<n'. has_transparency (m' ! k))
           \<and> (\<forall>k. n' \<le> k \<and> k < length m' \<longrightarrow> \<not> has_transparency (m' ! k))"
          using "1.IH"(2) tr True inside step "1.prems" by simp
        moreover have "move_transparent cmap i n = move_transparent cmap (i + 1) (n + 1)"
          using inside tr True by (subst move_transparent.simps) simp
        ultimately show ?thesis by simp
      next
        case False
        then have lt: "n < i" using "1.prems"(1) by simp
        then have nin: "n < length cmap" using inside by simp
        define cmap2 where "cmap2 = cmap[n := cmap ! i, i := cmap ! n]"
        have len: "length cmap2 = length cmap" by (simp add: cmap2_def)
        have ms: "mset cmap2 = mset cmap"
          unfolding cmap2_def using inside nin by (simp add: mset_swap)
        have low: "\<forall>k<n + 1. has_transparency (cmap2 ! k)"
        proof (intro allI impI)
          fix k assume "k < n + 1"
          then consider "k < n" | "k = n" by linarith
          then show "has_transparency (cmap2 ! k)"
          proof cases
            case 1
            then show ?thesis using "1.prems"(3) lt nin inside by (simp add: cmap2_def)
          next
            case 2
            then show ?thesis using t lt nin inside by (simp add: cmap2_def)
          qed
        qed
        have mid: "\<forall>k. n + 1 \<le> k \<and> k < i \<longrightarrow> \<not> has_transparency (cmap2 ! k)"
        proof (intro allI impI)
          fix k assume k: "n + 1 \<le> k \<and> k < i"
          then have "cmap2 ! k = cmap ! k" by (simp add: cmap2_def)
          then show "\<not> has_transparency (cmap2 ! k)" using "1.prems"(4) k by simp
        qed
        have "\<exists>n' m'. move_transparent cmap2 i (n + 1) = Inr (n', m') \<and> mset m' = mset cmap2
           \<and> n' \<le> length m' \<and> (\<forall>k<n'. has_transparency (m' ! k))
           \<and> (\<forall>k. n' \<le> k \<and> k < length m' \<longrightarrow> \<not> has_transparency (m' ! k))"
          using "1.IH"(1) [of "cmap ! n" "cmap[n := cmap ! i]" cmap2] tr False nin lt inside len low mid
          by (simp add: cmap2_def)
        moreover have "move_transparent cmap i n = move_transparent cmap2 i (n + 1)"
          using inside tr False nin by (subst move_transparent.simps) (simp add: cmap2_def)
        ultimately show ?thesis using ms by simp
      qed
    qed
  qed
qed

lemma length_qsort_fold: "length (foldr (qsort_place c) xs []) = length xs"
  using mset_qsort_fold [of c xs] by (metis size_mset)

lemma set_qsort_fold: "set (foldr (qsort_place c) xs []) = set xs"
  using mset_qsort_fold [of c xs] by (metis set_mset_mset)

lemma qsort_whole: "qsort xs (length xs) c = foldr (qsort_place c) xs []"
  by (simp add: qsort_def)

lemma drop_to_last: "xs \<noteq> [] \<Longrightarrow> drop (length xs - 1) xs = [last xs]"
  by (metis append_butlast_last_id append_eq_conv_conj length_butlast)

lemma take_to_butlast: "take (length xs - 1) xs = butlast xs"
  by (simp add: butlast_conv_take)

lemma transparent_to_last_found:
  assumes "\<exists>k. i \<le> k \<and> k < length cmap \<and> f_a (acolor (cmap ! k)) < 1 / 256"
  shows "\<exists>m'. transparent_to_last cmap i = Some m' \<and> mset m' = mset cmap \<and> m' \<noteq> []
           \<and> f_a (acolor (last m')) < 1 / 256 \<and> ascending_popularity (butlast m')"
  using assms
proof (induction cmap i rule: transparent_to_last.induct)
  case (1 cmap i)
  from "1.prems" have inside: "i < length cmap" by auto
  show ?case
  proof (cases "f_a (acolor (cmap ! i)) < 1 / 256")
    case False
    have "\<exists>k. i + 1 \<le> k \<and> k < length cmap \<and> f_a (acolor (cmap ! k)) < 1 / 256"
    proof -
      from "1.prems" obtain k where k: "i \<le> k" "k < length cmap" "f_a (acolor (cmap ! k)) < 1 / 256"
        by auto
      then have "k \<noteq> i" using False by auto
      then show ?thesis using k by (intro exI [of _ k]) simp
    qed
    then have "\<exists>m'. transparent_to_last cmap (i + 1) = Some m' \<and> mset m' = mset cmap \<and> m' \<noteq> []
           \<and> f_a (acolor (last m')) < 1 / 256 \<and> ascending_popularity (butlast m')"
      using "1.IH" inside False by simp
    moreover have "transparent_to_last cmap i = transparent_to_last cmap (i + 1)"
      using inside False by (subst transparent_to_last.simps) simp
    ultimately show ?thesis by simp
  next
    case True
    define d where "d = length cmap - 1"
    define cmap2 where "cmap2 = cmap[d := cmap ! i, i := cmap ! d]"
    have d: "d < length cmap" using inside by (simp add: d_def)
    have len: "length cmap2 = length cmap" by (simp add: cmap2_def)
    have ne: "cmap2 \<noteq> []" using inside len by auto
    have ms: "mset cmap2 = mset cmap"
      unfolding cmap2_def using inside d by (simp add: mset_swap)
    have "cmap2 ! d = cmap ! i"
      using inside d by (cases "i = d") (simp_all add: cmap2_def)
    then have lst: "last cmap2 = cmap ! i"
      using ne len by (simp add: last_conv_nth d_def)
    define m' where "m' = qsort cmap2 d compare_popularity"
    have m': "m' = foldr (qsort_place compare_popularity) (butlast cmap2) [] @ [cmap ! i]"
      using drop_to_last [OF ne] take_to_butlast [of cmap2] lst len
      by (simp add: m'_def qsort_def d_def)
    have run: "transparent_to_last cmap i = Some m'"
      using inside True
      by (subst transparent_to_last.simps) (simp add: m'_def cmap2_def d_def Let_def)
    have "mset m' = mset cmap" using ms by (simp add: m'_def mset_qsort)
    moreover have "m' \<noteq> []" using m' by simp
    moreover have "f_a (acolor (last m')) < 1 / 256" using m' True by simp
    moreover have "ascending_popularity (butlast m')"
      using m' by (simp add: ascending_qsort_fold)
    ultimately show ?thesis using run by simp
  qed
qed

lemma transparent_to_last_none:
  "\<forall>k. i \<le> k \<and> k < length cmap \<longrightarrow> \<not> f_a (acolor (cmap ! k)) < 1 / 256
   \<Longrightarrow> transparent_to_last cmap i = None"
proof (induction cmap i rule: transparent_to_last.induct)
  case (1 cmap i)
  show ?case
  proof (cases "i < length cmap")
    case False
    then show ?thesis by (subst transparent_to_last.simps) simp
  next
    case True
    then have nt: "\<not> f_a (acolor (cmap ! i)) < 1 / 256" using "1.prems" by simp
    have "transparent_to_last cmap (i + 1) = None"
      using "1.IH" True nt "1.prems" by simp
    moreover have "transparent_to_last cmap i = transparent_to_last cmap (i + 1)"
      using True nt by (subst transparent_to_last.simps) simp
    ultimately show ?thesis by simp
  qed
qed

lemma front_layout:
  assumes "(if last_index_transparent options then transparent_to_last cmap 0 else None) = None"
  shows "\<exists>s1 s2. sort_palette cmap options = Inr (s1 @ s2) \<and> mset (s1 @ s2) = mset cmap
           \<and> (\<forall>c\<in>set s1. has_transparency c) \<and> (\<forall>c\<in>set s2. \<not> has_transparency c)
           \<and> ascending_popularity s1 \<and> ascending_popularity s2"
proof -
  obtain n m1 where run: "move_transparent cmap 0 0 = Inr (n, m1)"
    and ms: "mset m1 = mset cmap" and n: "n \<le> length m1"
    and low: "\<forall>k<n. has_transparency (m1 ! k)"
    and high: "\<forall>k. n \<le> k \<and> k < length m1 \<longrightarrow> \<not> has_transparency (m1 ! k)"
    using move_transparent_partitions [of 0 0 cmap] by auto
  define s1 where "s1 = foldr (qsort_place compare_popularity) (take n m1) []"
  define s2 where "s2 = foldr (qsort_place compare_popularity) (drop n m1) []"
  define m2 where "m2 = qsort m1 n compare_popularity"
  have m2: "m2 = s1 @ drop n m1" by (simp add: m2_def qsort_def s1_def)
  have l1: "length s1 = n" using n by (simp add: s1_def length_qsort_fold)
  have "length m2 - n = length (drop n m1)" using l1 by (simp add: m2)
  moreover have "drop n m2 = drop n m1" using l1 by (simp add: m2)
  ultimately have second: "qsort (drop n m2) (length m2 - n) compare_popularity = s2"
    by (simp only: s2_def qsort_whole)
  have res: "sort_palette cmap options = Inr (s1 @ s2)"
    using assms run second l1 by (simp add: sort_palette_def m2_def [symmetric] m2)
  have "mset (take n m1) + mset (drop n m1) = mset m1"
    by (metis append_take_drop_id mset_append)
  then have msr: "mset (s1 @ s2) = mset cmap"
    using ms by (simp add: s1_def s2_def mset_qsort_fold)
  have t1: "\<forall>c\<in>set s1. has_transparency c"
  proof
    fix c assume "c \<in> set s1"
    then have "c \<in> set (take n m1)" by (simp add: s1_def set_qsort_fold)
    then obtain k where "k < n" "c = m1 ! k" using n
      by (metis in_set_conv_nth length_take min.absorb2 nth_take)
    then show "has_transparency c" using low by simp
  qed
  have t2: "\<forall>c\<in>set s2. \<not> has_transparency c"
  proof
    fix c assume "c \<in> set s2"
    then have "c \<in> set (drop n m1)" by (simp add: s2_def set_qsort_fold)
    then obtain k where "k < length m1 - n" "c = m1 ! (n + k)" using n
      by (metis in_set_conv_nth length_drop nth_drop)
    then show "\<not> has_transparency c" using high by simp
  qed
  have "ascending_popularity s1" "ascending_popularity s2"
    by (simp_all add: s1_def s2_def ascending_qsort_fold)
  then show ?thesis
    using res msr t1 t2 by blast
qed

text \<open>
  C3, as the code has it: with \<open>last_index_transparent\<close> unset, \<open>sort_palette\<close>
  returns a permutation of the colormap in which the first \<open>num_trans\<close> entries have
  alpha below 255/256 and all later ones have not, and each of the two groups is in
  ascending popularity (the comparator orders the more popular entry behind the less
  popular one).
\<close>

theorem sort_palette_transparent_first:
  assumes "\<not> last_index_transparent options"
  shows "\<exists>m'. sort_palette cmap options = Inr m' \<and> mset m' = mset cmap
           \<and> (\<forall>k<num_trans cmap. f_a (acolor (m' ! k)) < 255 / 256)
           \<and> (\<forall>k. num_trans cmap \<le> k \<and> k < length m' \<longrightarrow> 255 / 256 \<le> f_a (acolor (m' ! k)))
           \<and> ascending_popularity (take (num_trans cmap) m')
           \<and> ascending_popularity (drop (num_trans cmap) m')"
proof -
  obtain s1 s2 where res: "sort_palette cmap options = Inr (s1 @ s2)"
    and ms: "mset (s1 @ s2) = mset cmap"
    and t1: "\<forall>c\<in>set s1. has_transparency c" and t2: "\<forall>c\<in>set s2. \<not> has_transparency c"
    and a1: "ascending_popularity s1" and a2: "ascending_popularity s2"
    using front_layout [of options cmap] assms by auto
  have "num_trans cmap = size (filter_mset has_transparency (mset cmap))"
    by (simp add: num_trans_def flip: mset_filter)
  also have "\<dots> = length (filter has_transparency (s1 @ s2))"
    by (simp add: ms [symmetric] flip: mset_filter)
  also have "\<dots> = length s1" using t1 t2 by simp
  finally have n: "num_trans cmap = length s1" .
  have "\<forall>k<length s1. f_a (acolor ((s1 @ s2) ! k)) < 255 / 256"
    using t1 by (simp add: nth_append has_transparency_def)
  moreover have "\<forall>k. length s1 \<le> k \<and> k < length (s1 @ s2) \<longrightarrow> 255 / 256 \<le> f_a (acolor ((s1 @ s2) ! k))"
  proof (intro allI impI)
    fix k assume k: "length s1 \<le> k \<and> k < length (s1 @ s2)"
    then have "k - length s1 < length s2" by auto
    then have "s2 ! (k - length s1) \<in> set s2" by (rule nth_mem)
    then have "(s1 @ s2) ! k \<in> set s2" using k by (simp add: nth_append)
    then show "255 / 256 \<le> f_a (acolor ((s1 @ s2) ! k))"
      using t2 by (auto simp: has_transparency_def)
  qed
  ultimately show ?thesis using res ms a1 a2 n by simp
qed

theorem sort_palette_transparent_first_witness:
  "sort_palette
     [\<lparr>acolor = \<lparr>f_a = 1, f_r = 0, f_g = 0, f_b = 0\<rparr>, popularity = 4\<rparr>,
      \<lparr>acolor = \<lparr>f_a = 1 / 2, f_r = 0, f_g = 0, f_b = 0\<rparr>, popularity = 3\<rparr>,
      \<lparr>acolor = \<lparr>f_a = 1, f_r = 1, f_g = 0, f_b = 0\<rparr>, popularity = 2\<rparr>,
      \<lparr>acolor = \<lparr>f_a = 0, f_r = 0, f_g = 0, f_b = 0\<rparr>, popularity = 1\<rparr>]
     \<lparr>target_mse = 0, max_mse = 7, voronoi_iteration_limit = 0,
       min_opaque_val = 1, last_index_transparent = False, use_contrast_maps = True,
       use_dither_map = True, max_colors = 256, max_histogram_entries = 0,
       min_posterization = 0, voronoi_iterations = 0, feedback_loop_trials = 0\<rparr>
   = Inr
     [\<lparr>acolor = \<lparr>f_a = 0, f_r = 0, f_g = 0, f_b = 0\<rparr>, popularity = 1\<rparr>,
      \<lparr>acolor = \<lparr>f_a = 1 / 2, f_r = 0, f_g = 0, f_b = 0\<rparr>, popularity = 3\<rparr>,
      \<lparr>acolor = \<lparr>f_a = 1, f_r = 1, f_g = 0, f_b = 0\<rparr>, popularity = 2\<rparr>,
      \<lparr>acolor = \<lparr>f_a = 1, f_r = 0, f_g = 0, f_b = 0\<rparr>, popularity = 4\<rparr>]
   \<and> ascending_popularity (take 2
     [\<lparr>acolor = \<lparr>f_a = 0, f_r = 0, f_g = 0, f_b = 0\<rparr>, popularity = 1\<rparr>,
      \<lparr>acolor = \<lparr>f_a = 1 / 2, f_r = 0, f_g = 0, f_b = 0\<rparr>, popularity = 3\<rparr>,
      \<lparr>acolor = \<lparr>f_a = 1, f_r = 1, f_g = 0, f_b = 0\<rparr>, popularity = 2\<rparr>,
      \<lparr>acolor = \<lparr>f_a = 1, f_r = 0, f_g = 0, f_b = 0\<rparr>, popularity = 4\<rparr>])"
proof -
  let ?cmap = "[\<lparr>acolor = \<lparr>f_a = 1, f_r = 0, f_g = 0, f_b = 0\<rparr>, popularity = 4\<rparr>,
      \<lparr>acolor = \<lparr>f_a = 1 / 2, f_r = 0, f_g = 0, f_b = 0\<rparr>, popularity = 3\<rparr>,
      \<lparr>acolor = \<lparr>f_a = 1, f_r = 1, f_g = 0, f_b = 0\<rparr>, popularity = 2\<rparr>,
      \<lparr>acolor = \<lparr>f_a = 0, f_r = 0, f_g = 0, f_b = 0\<rparr>, popularity = (1::real)\<rparr>]"
  let ?options = "\<lparr>target_mse = 0, max_mse = 7, voronoi_iteration_limit = 0,
       min_opaque_val = 1, last_index_transparent = False, use_contrast_maps = True,
       use_dither_map = True, max_colors = 256, max_histogram_entries = 0,
       min_posterization = 0, voronoi_iterations = 0, feedback_loop_trials = 0\<rparr>"
  have run: "sort_palette ?cmap ?options = Inr
     [\<lparr>acolor = \<lparr>f_a = 0, f_r = 0, f_g = 0, f_b = 0\<rparr>, popularity = 1\<rparr>,
      \<lparr>acolor = \<lparr>f_a = 1 / 2, f_r = 0, f_g = 0, f_b = 0\<rparr>, popularity = 3\<rparr>,
      \<lparr>acolor = \<lparr>f_a = 1, f_r = 1, f_g = 0, f_b = 0\<rparr>, popularity = 2\<rparr>,
      \<lparr>acolor = \<lparr>f_a = 1, f_r = 0, f_g = 0, f_b = 0\<rparr>, popularity = 4\<rparr>]"
    by (simp add: sort_palette_def qsort_def compare_popularity_def move_transparent.simps)
  have nt: "num_trans ?cmap = 2"
    by (simp add: num_trans_def has_transparency_def)
  have "\<not> last_index_transparent ?options" by simp
  from sort_palette_transparent_first [OF this, of ?cmap] run nt
  show ?thesis by auto
qed

text \<open>
  C3 as the specification states it (descending popularity within a group) fails: two
  opaque entries given in descending popularity come out in ascending popularity.
\<close>

theorem sort_palette_descending_counterexample:
  "sort_palette
     [\<lparr>acolor = \<lparr>f_a = 1, f_r = 0, f_g = 0, f_b = 0\<rparr>, popularity = 2\<rparr>,
      \<lparr>acolor = \<lparr>f_a = 1, f_r = 1, f_g = 1, f_b = 1\<rparr>, popularity = 1\<rparr>]
     \<lparr>target_mse = 0, max_mse = 7, voronoi_iteration_limit = 0,
       min_opaque_val = 1, last_index_transparent = False, use_contrast_maps = True,
       use_dither_map = True, max_colors = 256, max_histogram_entries = 0,
       min_posterization = 0, voronoi_iterations = 0, feedback_loop_trials = 0\<rparr>
   = Inr
     [\<lparr>acolor = \<lparr>f_a = 1, f_r = 1, f_g = 1, f_b = 1\<rparr>, popularity = 1\<rparr>,
      \<lparr>acolor = \<lparr>f_a = 1, f_r = 0, f_g = 0, f_b = 0\<rparr>, popularity = 2\<rparr>]
   \<and> \<not> descending_popularity
     [\<lparr>acolor = \<lparr>f_a = 1, f_r = 1, f_g = 1, f_b = 1\<rparr>, popularity = 1\<rparr>,
      \<lparr>acolor = \<lparr>f_a = 1, f_r = 0, f_g = 0, f_b = 0\<rparr>, popularity = 2\<rparr>]"
  by (simp add: sort_palette_def qsort_def compare_popularity_def move_transparent.simps
        descending_popularity_def)

text \<open>
  C4, as the code has it: with \<open>last_index_transparent\<close> set and an entry with alpha
  below 1/256 in the colormap, \<open>sort_palette\<close> returns a permutation of the colormap
  whose last entry has alpha below 1/256 and whose entries before the last are in ascending
  popularity.
\<close>

theorem sort_palette_last_index_transparent:
  assumes "last_index_transparent options"
    and "\<exists>c\<in>set cmap. f_a (acolor c) < 1 / 256"
  shows "\<exists>m'. sort_palette cmap options = Inr m' \<and> mset m' = mset cmap \<and> m' \<noteq> []
           \<and> f_a (acolor (last m')) < 1 / 256 \<and> ascending_popularity (butlast m')"
proof -
  from assms(2) have "\<exists>k. 0 \<le> k \<and> k < length cmap \<and> f_a (acolor (cmap ! k)) < 1 / 256"
    by (metis in_set_conv_nth le0)
  then obtain m' where "transparent_to_last cmap 0 = Some m'" "mset m' = mset cmap" "m' \<noteq> []"
    "f_a (acolor (last m')) < 1 / 256" "ascending_popularity (butlast m')"
    using transparent_to_last_found [of 0 cmap] by auto
  then show ?thesis using assms(1) by (simp add: sort_palette_def)
qed

theorem sort_palette_last_index_transparent_witness:
  "sort_palette
     [\<lparr>acolor = \<lparr>f_a = 1, f_r = 0, f_g = 0, f_b = 0\<rparr>, popularity = 4\<rparr>,
      \<lparr>acolor = \<lparr>f_a = 0, f_r = 0, f_g = 0, f_b = 0\<rparr>, popularity = 3\<rparr>,
      \<lparr>acolor = \<lparr>f_a = 1, f_r = 1, f_g = 0, f_b = 0\<rparr>, popularity = 2\<rparr>]
     \<lparr>target_mse = 0, max_mse = 7, voronoi_iteration_limit = 0,
       min_opaque_val = 1, last_index_transparent = True, use_contrast_maps = True,
       use_dither_map = True, max_colors = 256, max_histogram_entries = 0,
       min_posterization = 0, voronoi_iterations = 0, feedback_loop_trials = 0\<rparr>
   = Inr
     [\<lparr>acolor = \<lparr>f_a = 1, f_r = 1, f_g = 0, f_b = 0\<rparr>, popularity = 2\<rparr>,
      \<lparr>acolor = \<lparr>f_a = 1, f_r = 0, f_g = 0, f_b = 0\<rparr>, popularity = 4\<rparr>,
      \<lparr>acolor = \<lparr>f_a = 0, f_r = 0, f_g = 0, f_b = 0\<rparr>, popularity = 3\<rparr>]
   \<and> ascending_popularity (butlast
     [\<lparr>acolor = \<lparr>f_a = 1, f_r = 1, f_g = 0, f_b = 0\<rparr>, popularity = 2\<rparr>,
      \<lparr>acolor = \<lparr>f_a = 1, f_r = 0, f_g = 0, f_b = 0\<rparr>, popularity = 4\<rparr>,
      \<lparr>acolor = \<lparr>f_a = 0, f_r = 0, f_g = 0, f_b = 0\<rparr>, popularity = 3\<rparr>])"
proof -
  let ?cmap = "[\<lparr>acolor = \<lparr>f_a = 1, f_r = 0, f_g = 0, f_b = 0\<rparr>, popularity = 4\<rparr>,
      \<lparr>acolor = \<lparr>f_a = 0, f_r = 0, f_g = 0, f_b = 0\<rparr>, popularity = 3\<rparr>,
      \<lparr>acolor = \<lparr>f_a = 1, f_r = 1, f_g = 0, f_b = 0\<rparr>, popularity = (2::real)\<rparr>]"
  let ?options = "\<lparr>target_mse = 0, max_mse = 7, voronoi_iteration_limit = 0,
       min_opaque_val = 1, last_index_transparent = True, use_contrast_maps = True,
       use_dither_map = True, max_colors = 256, max_histogram_entries = 0,
       min_posterization = 0, voronoi_iterations = 0, feedback_loop_trials = 0\<rparr>"
  have run: "sort_palette ?cmap ?options = Inr
     [\<lparr>acolor = \<lparr>f_a = 1, f_r = 1, f_g = 0, f_b = 0\<rparr>, popularity = 2\<rparr>,
      \<lparr>acolor = \<lparr>f_a = 1, f_r = 0, f_g = 0, f_b = 0\<rparr>, popularity = 4\<rparr>,
      \<lparr>acolor = \<lparr>f_a = 0, f_r = 0, f_g = 0, f_b = 0\<rparr>, popularity = 3\<rparr>]"
    by (simp add: sort_palette_def qsort_def compare_popularity_def transparent_to_last.simps)
  have a: "last_index_transparent ?options" by simp
  have b: "\<exists>c\<in>set ?cmap. f_a (acolor c) < 1 / 256" by simp
  from sort_palette_last_index_transparent [OF a b] run
  show ?thesis by auto
qed

text \<open>
  C4 as the specification states it (the prefix in descending popularity) fails: the two
  opaque entries of this colormap come out in ascending popularity.
\<close>

theorem sort_palette_last_index_descending_counterexample:
  "sort_palette
     [\<lparr>acolor = \<lparr>f_a = 0, f_r = 0, f_g = 0, f_b = 0\<rparr>, popularity = 5\<rparr>,
      \<lparr>acolor = \<lparr>f_a = 1, f_r = 0, f_g = 0, f_b = 0\<rparr>, popularity = 2\<rparr>,
      \<lparr>acolor = \<lparr>f_a = 1, f_r = 1, f_g = 1, f_b = 1\<rparr>, popularity = 1\<rparr>]
     \<lparr>target_mse = 0, max_mse = 7, voronoi_iteration_limit = 0,
       min_opaque_val = 1, last_index_transparent = True, use_contrast_maps = True,
       use_dither_map = True, max_colors = 256, max_histogram_entries = 0,
       min_posterization = 0, voronoi_iterations = 0, feedback_loop_trials = 0\<rparr>
   = Inr
     [\<lparr>acolor = \<lparr>f_a = 1, f_r = 1, f_g = 1, f_b = 1\<rparr>, popularity = 1\<rparr>,
      \<lparr>acolor = \<lparr>f_a = 1, f_r = 0, f_g = 0, f_b = 0\<rparr>, popularity = 2\<rparr>,
      \<lparr>acolor = \<lparr>f_a = 0, f_r = 0, f_g = 0, f_b = 0\<rparr>, popularity = 5\<rparr>]
   \<and> \<not> descending_popularity (butlast
     [\<lparr>acolor = \<lparr>f_a = 1, f_r = 1, f_g = 1, f_b = 1\<rparr>, popularity = 1\<rparr>,
      \<lparr>acolor = \<lparr>f_a = 1, f_r = 0, f_g = 0, f_b = 0\<rparr>, popularity = 2\<rparr>,
      \<lparr>acolor = \<lparr>f_a = 0, f_r = 0, f_g = 0, f_b = 0\<rparr>, popularity = 5\<rparr>])"
  by (simp add: sort_palette_def qsort_def compare_popularity_def transparent_to_last.simps
        descending_popularity_def)

lemma sort_palette_permutes:
  "\<exists>m'. sort_palette cmap options = Inr m' \<and> mset m' = mset cmap"
proof (cases "(if last_index_transparent options then transparent_to_last cmap 0 else None) = None")
  case True
  then show ?thesis using front_layout [of options cmap] by auto
next
  case False
  then obtain m' where lit: "last_index_transparent options" and m': "transparent_to_last cmap 0 = Some m'"
    by (auto split: if_splits)
  have "\<exists>k. 0 \<le> k \<and> k < length cmap \<and> f_a (acolor (cmap ! k)) < 1 / 256"
    using transparent_to_last_none [of 0 cmap] m' by auto
  then have "mset m' = mset cmap" using transparent_to_last_found [of 0 cmap] m' by auto
  then show ?thesis using lit m' by (simp add: sort_palette_def)
qed

section \<open>Properties of quantization\<close>

lemma find_best_loop_some:
  "\<exists>m e h. find_best_loop mediancut viter options hist max_cols trials acolormap least_error
              overshoot = (Some m, e, h)"
proof (induction "nat trials" arbitrary: hist max_cols trials acolormap least_error overshoot
       rule: less_induct)
  case less
  show ?case
    by (subst find_best_loop.simps) (auto split: prod.splits simp: Let_def intro!: less)
qed

lemma attr_settings_max_mse:
  assumes "0 < MAX_DIFF" "attr_settings MAX_DIFF options"
  shows "0 < max_mse options"
  using assms(2)
proof (induction rule: attr_settings.induct)
  case created
  then show ?case using assms(1) by (simp add: liq_attr_create_def liq_set_speed_def)
next
  case (quality attr target minimum)
  then show ?case
    using assms(1) quality_to_mse_pos [of MAX_DIFF minimum]
    by (auto simp: liq_set_quality_def)
next
  case (colors attr n)
  then show ?case by (simp add: liq_set_max_colors_def)
next
  case (speed attr s)
  then show ?case by (simp add: liq_set_speed_def Let_def)
next
  case (opacity attr v)
  then show ?case by (simp add: liq_set_min_opacity_def)
next
  case (last_index attr f)
  then show ?case by (simp add: liq_set_last_index_transparent_def)
qed

lemma refine_palette_returns:
  "\<exists>m e. refine_palette mediancut viter MAX_DIFF hist options = Inr (m, e)"
proof -
  obtain m w h where "find_best_palette mediancut viter MAX_DIFF hist options = (Some m, w, h)"
    using find_best_loop_some by (metis find_best_palette_def)
  then show ?thesis
    by (cases "voronoi_loop viter options 0 (voronoi_iterations options) MAX_DIFF h m
                 (case w of None \<Rightarrow> - 1 | Some e \<Rightarrow> e)";
        cases "voronoi_loop viter options 0 1 MAX_DIFF h m (case w of None \<Rightarrow> - 1 | Some e \<Rightarrow> e)")
       (simp add: refine_palette_def Let_def)
qed

lemma make_result_returns:
  "\<exists>r. make_result acolormap palette_error options = Inr (Some r)
       \<and> res_palette_error r = palette_error
       \<and> sort_palette acolormap options = Inr (res_palette r)
       \<and> mset (res_palette r) = mset acolormap"
proof -
  obtain m' where "sort_palette acolormap options = Inr m'" "mset m' = mset acolormap"
    using sort_palette_permutes [of acolormap options] by auto
  then show ?thesis by (simp add: make_result_def)
qed

text \<open>
  C1: for every histogram and every attribute object that the constructor and the setters
  can produce, \<open>pngquant_quantize\<close> returns no result exactly when the palette error
  after refinement exceeds \<open>max_mse\<close>; otherwise it returns a result that carries that
  error and the constructed palette, ordered by \<open>sort_palette\<close>. The branch for an image
  of few colours sets the error to 0 and skips the test, and \<open>max_mse\<close> of an attribute
  object is positive (\<open>attr_settings_max_mse\<close>). The claim holds whatever \<open>mediancut\<close> and
  \<open>viter_do_iteration\<close> compute.
\<close>

theorem quantize_fails_iff_error_exceeds_max_mse:
  assumes "0 < MAX_DIFF" "attr_settings MAX_DIFF options"
  shows "\<exists>acolormap palette_error.
           palette_search mediancut viter MAX_DIFF hist options = Inr (acolormap, palette_error)
           \<and> (pngquant_quantize mediancut viter MAX_DIFF hist options = Inr None
                \<longleftrightarrow> palette_error > max_mse options)
           \<and> (\<not> palette_error > max_mse options \<longrightarrow>
                (\<exists>r. pngquant_quantize mediancut viter MAX_DIFF hist options = Inr (Some r)
                     \<and> res_palette_error r = palette_error
                     \<and> sort_palette acolormap options = Inr (res_palette r)
                     \<and> mset (res_palette r) = mset acolormap))"
proof (cases "length hist \<le> max_colors options \<and> target_mse options = 0")
  case True
  have pos: "0 < max_mse options" by (rule attr_settings_max_mse [OF assms])
  obtain r where r: "make_result (histogram_palette hist) 0 options = Inr (Some r)"
    "res_palette_error r = 0" "sort_palette (histogram_palette hist) options = Inr (res_palette r)"
    "mset (res_palette r) = mset (histogram_palette hist)"
    using make_result_returns [of "histogram_palette hist" 0 options] by auto
  have "palette_search mediancut viter MAX_DIFF hist options = Inr (histogram_palette hist, 0)"
    using True by (simp add: palette_search_def)
  moreover have "pngquant_quantize mediancut viter MAX_DIFF hist options = Inr (Some r)"
    using True r(1) by (simp add: pngquant_quantize_def)
  ultimately show ?thesis using pos r by simp
next
  case False
  obtain m e where me: "refine_palette mediancut viter MAX_DIFF hist options = Inr (m, e)"
    using refine_palette_returns by blast
  obtain r where r: "make_result m e options = Inr (Some r)"
    "res_palette_error r = e" "sort_palette m options = Inr (res_palette r)"
    "mset (res_palette r) = mset m"
    using make_result_returns [of m e options] by auto
  have ps: "palette_search mediancut viter MAX_DIFF hist options = Inr (m, e)"
    using False me by (auto simp: palette_search_def)
  have q: "pngquant_quantize mediancut viter MAX_DIFF hist options =
             (if e > max_mse options then Inr None else Inr (Some r))"
    using False me r(1) by (auto simp: pngquant_quantize_def)
  show ?thesis using ps q r by auto
qed

theorem quantize_fails_iff_error_exceeds_max_mse_witness:
  "\<exists>r. pngquant_quantize
         (\<lambda>hist min_opaque n t x. (take n (histogram_palette hist), hist))
         (\<lambda>hist cmap min_opaque cb. (1 / 1000, cmap, hist))
         7
         [\<lparr>h_acolor = \<lparr>f_a = 1, f_r = 0, f_g = 0, f_b = 0\<rparr>, adjusted_weight = 2, perceptual_weight = 2\<rparr>,
          \<lparr>h_acolor = \<lparr>f_a = 1, f_r = 1, f_g = 0, f_b = 0\<rparr>, adjusted_weight = 1, perceptual_weight = 1\<rparr>,
          \<lparr>h_acolor = \<lparr>f_a = 1, f_r = 1, f_g = 1, f_b = 0\<rparr>, adjusted_weight = 3, perceptual_weight = 3\<rparr>]
         (snd (liq_set_max_colors (liq_attr_create 7) 2)) = Inr (Some r)
       \<and> res_palette_error r = 1 / 1000
       \<and> res_palette r =
           [\<lparr>acolor = \<lparr>f_a = 1, f_r = 1, f_g = 0, f_b = 0\<rparr>, popularity = 1\<rparr>,
            \<lparr>acolor = \<lparr>f_a = 1, f_r = 0, f_g = 0, f_b = 0\<rparr>, popularity = 2\<rparr>]"
proof -
  let ?mediancut = "(\<lambda>hist min_opaque n t x. (take n (histogram_palette hist), hist)) :: mediancut_fn"
  let ?viter = "(\<lambda>hist cmap min_opaque cb. (1 / 1000, cmap, hist)) :: viter_fn"
  let ?hist = "[\<lparr>h_acolor = \<lparr>f_a = 1, f_r = 0, f_g = 0, f_b = 0\<rparr>, adjusted_weight = 2, perceptual_weight = 2\<rparr>,
          \<lparr>h_acolor = \<lparr>f_a = 1, f_r = 1, f_g = 0, f_b = 0\<rparr>, adjusted_weight = 1, perceptual_weight = 1\<rparr>,
          \<lparr>h_acolor = \<lparr>f_a = 1, f_r = 1, f_g = 1, f_b = 0\<rparr>, adjusted_weight = 3, perceptual_weight = (3::real)\<rparr>]"
  let ?options = "snd (liq_set_max_colors (liq_attr_create 7) 2)"
  let ?found = "[\<lparr>acolor = \<lparr>f_a = 1, f_r = 0, f_g = 0, f_b = 0\<rparr>, popularity = 2\<rparr>,
            \<lparr>acolor = \<lparr>f_a = 1, f_r = 1, f_g = 0, f_b = 0\<rparr>, popularity = (1::real)\<rparr>]"
  have settings: "attr_settings 7 ?options"
    by (intro attr_settings.colors attr_settings.created)
  have search: "palette_search ?mediancut ?viter 7 ?hist ?options = Inr (?found, 1 / 1000)"
    by (simp add: palette_search_def refine_palette_def find_best_palette_def
          find_best_loop.simps voronoi_loop.simps liq_attr_create_def liq_set_speed_def
          liq_set_max_colors_def histogram_palette_def Let_def)
  have limit: "\<not> 1 / 1000 > max_mse ?options"
    by (simp add: liq_attr_create_def liq_set_speed_def liq_set_max_colors_def Let_def)
  have ordered: "sort_palette ?found ?options = Inr
           [\<lparr>acolor = \<lparr>f_a = 1, f_r = 1, f_g = 0, f_b = 0\<rparr>, popularity = 1\<rparr>,
            \<lparr>acolor = \<lparr>f_a = 1, f_r = 0, f_g = 0, f_b = 0\<rparr>, popularity = 2\<rparr>]"
    by (simp add: sort_palette_def qsort_def compare_popularity_def move_transparent.simps
          liq_attr_create_def liq_set_speed_def liq_set_max_colors_def Let_def)
  have pos: "(0::real) < 7" by simp
  from quantize_fails_iff_error_exceeds_max_mse [OF pos settings, of ?mediancut ?viter ?hist]
    search limit ordered
  show ?thesis by auto
qed

text \<open>
  C2: when the histogram has at most \<open>max_colors\<close> entries and \<open>target_mse\<close> is 0,
  \<open>pngquant_quantize\<close> returns a result with palette error 0 whose palette has one
  entry for each histogram entry, colour and perceptual weight copied: it is a permutation
  of the histogram's colours.
\<close>

theorem quantize_few_colors_exact:
  assumes "length hist \<le> max_colors options" "target_mse options = 0"
  shows "\<exists>r. pngquant_quantize mediancut viter MAX_DIFF hist options = Inr (Some r)
           \<and> res_palette_error r = 0
           \<and> length (res_palette r) = length hist
           \<and> mset (res_palette r)
               = mset (map (\<lambda>h. \<lparr>acolor = h_acolor h, popularity = perceptual_weight h\<rparr>) hist)
           \<and> mset (map acolor (res_palette r)) = mset (map h_acolor hist)"
proof -
  obtain r where r: "make_result (histogram_palette hist) 0 options = Inr (Some r)"
    "res_palette_error r = 0"
    "mset (res_palette r) = mset (histogram_palette hist)"
    using make_result_returns [of "histogram_palette hist" 0 options] by auto
  have q: "pngquant_quantize mediancut viter MAX_DIFF hist options = Inr (Some r)"
    using assms r(1) by (simp add: pngquant_quantize_def)
  have len: "length (res_palette r) = length hist"
    using r(3) by (metis histogram_palette_def length_map size_mset)
  have "mset (map acolor (res_palette r)) = image_mset acolor (mset (histogram_palette hist))"
    using r(3) by (metis mset_map)
  also have "\<dots> = mset (map h_acolor hist)"
    by (simp add: histogram_palette_def comp_def flip: mset_map)
  finally show ?thesis using q r len by (simp add: histogram_palette_def)
qed

theorem quantize_few_colors_exact_witness:
  "\<exists>r. pngquant_quantize
         (\<lambda>hist min_opaque n t x. (take n (histogram_palette hist), hist))
         (\<lambda>hist cmap min_opaque cb. (1 / 1000, cmap, hist))
         7
         [\<lparr>h_acolor = \<lparr>f_a = 1, f_r = 0, f_g = 0, f_b = 0\<rparr>, adjusted_weight = 2, perceptual_weight = 2\<rparr>,
          \<lparr>h_acolor = \<lparr>f_a = 1, f_r = 1, f_g = 0, f_b = 0\<rparr>, adjusted_weight = 1, perceptual_weight = 1\<rparr>,
          \<lparr>h_acolor = \<lparr>f_a = 1, f_r = 1, f_g = 1, f_b = 0\<rparr>, adjusted_weight = 3, perceptual_weight = 3\<rparr>]
         (liq_attr_create 7) = Inr (Some r)
       \<and> res_palette_error r = 0
       \<and> length (res_palette r) = 3
       \<and> mset (map acolor (res_palette r))
            = {#\<lparr>f_a = 1, f_r = 0, f_g = 0, f_b = 0\<rparr>, \<lparr>f_a = 1, f_r = 1, f_g = 0, f_b = 0\<rparr>,
                \<lparr>f_a = 1, f_r = 1, f_g = 1, f_b = 0\<rparr>#}"
proof -
  let ?hist = "[\<lparr>h_acolor = \<lparr>f_a = 1, f_r = 0, f_g = 0, f_b = 0\<rparr>, adjusted_weight = 2, perceptual_weight = 2\<rparr>,
          \<lparr>h_acolor = \<lparr>f_a = 1, f_r = 1, f_g = 0, f_b = 0\<rparr>, adjusted_weight = 1, perceptual_weight = 1\<rparr>,
          \<lparr>h_acolor = \<lparr>f_a = 1, f_r = 1, f_g = 1, f_b = 0\<rparr>, adjusted_weight = 3, perceptual_weight = (3::real)\<rparr>]"
  have few: "length ?hist \<le> max_colors (liq_attr_create 7)"
    by (simp add: liq_attr_create_def liq_set_speed_def Let_def)
  have exact: "target_mse (liq_attr_create 7) = 0"
    by (simp add: liq_attr_create_def liq_set_speed_def Let_def)
  from quantize_few_colors_exact [OF few exact, of "\<lambda>hist min_opaque n t x. (take n (histogram_palette hist), hist)" "\<lambda>hist cmap min_opaque cb. (1 / 1000, cmap, hist)" 7]
  show ?thesis by auto
qed

section \<open>Properties of image preparation and the dither map\<close>

lemma fold_invariant:
  assumes "\<And>x s. P s \<Longrightarrow> P (f x s)" "P s"
  shows "P (fold f xs s)"
  using assms(2) by (induction xs arbitrary: s) (simp_all add: assms(1))

lemma modify_alpha_pixel_frame:
  "px_r (modify_alpha_pixel to_f to_rgb gamma m al t p) = px_r p
   \<and> px_g (modify_alpha_pixel to_f to_rgb gamma m al t p) = px_g p
   \<and> px_b (modify_alpha_pixel to_f to_rgb gamma m al t p) = px_b p
   \<and> (unat (px_a p) < t \<longrightarrow> modify_alpha_pixel to_f to_rgb gamma m al t p = p)"
  by (simp add: modify_alpha_pixel_def Let_def)

lemma alpha_frame_step:
  assumes "alpha_frame t before mem"
  shows "alpha_frame t before (mem[addr := modify_alpha_pixel to_f to_rgb gamma m al t (mem ! addr)])"
proof -
  have len: "length mem = length before" using assms by (simp add: alpha_frame_def)
  have "\<forall>k < length before.
        px_r (mem[addr := modify_alpha_pixel to_f to_rgb gamma m al t (mem ! addr)] ! k) = px_r (before ! k)
        \<and> px_g (mem[addr := modify_alpha_pixel to_f to_rgb gamma m al t (mem ! addr)] ! k) = px_g (before ! k)
        \<and> px_b (mem[addr := modify_alpha_pixel to_f to_rgb gamma m al t (mem ! addr)] ! k) = px_b (before ! k)
        \<and> (unat (px_a (before ! k)) < t \<longrightarrow>
             mem[addr := modify_alpha_pixel to_f to_rgb gamma m al t (mem ! addr)] ! k = before ! k)"
  proof (intro allI impI)
    fix k assume k: "k < length before"
    from assms k have old: "px_r (mem ! k) = px_r (before ! k)" "px_g (mem ! k) = px_g (before ! k)"
      "px_b (mem ! k) = px_b (before ! k)"
      "unat (px_a (before ! k)) < t \<longrightarrow> mem ! k = before ! k"
      by (simp_all add: alpha_frame_def)
    show "px_r (mem[addr := modify_alpha_pixel to_f to_rgb gamma m al t (mem ! addr)] ! k) = px_r (before ! k)
        \<and> px_g (mem[addr := modify_alpha_pixel to_f to_rgb gamma m al t (mem ! addr)] ! k) = px_g (before ! k)
        \<and> px_b (mem[addr := modify_alpha_pixel to_f to_rgb gamma m al t (mem ! addr)] ! k) = px_b (before ! k)
        \<and> (unat (px_a (before ! k)) < t \<longrightarrow>
             mem[addr := modify_alpha_pixel to_f to_rgb gamma m al t (mem ! addr)] ! k = before ! k)"
    proof (cases "k = addr")
      case True
      then show ?thesis
        using k len old modify_alpha_pixel_frame [of to_f to_rgb gamma m al t "mem ! addr"]
        by auto
    next
      case False
      then show ?thesis using old by simp
    qed
  qed
  then show ?thesis using len by (simp add: alpha_frame_def)
qed

text \<open>
  C9, as the code has it: \<open>modify_alpha\<close> changes at most the alpha byte of each pixel,
  and a pixel whose alpha byte is below the threshold that the code compares with, which is
  \<open>min_opaque_val*169/256*255\<close> truncated to an integer, stays as it is. This holds for
  every \<open>to_f\<close> and \<open>to_rgb\<close>, and also when rows share memory.
\<close>

theorem modify_alpha_frame:
  assumes "rows_in_memory input_image"
  shows "\<exists>img. modify_alpha to_f to_rgb input_image min_opaque_v = Inr img
           \<and> alpha_frame (nat \<lfloor>min_opaque_v * 169 / 256 * 255\<rfloor>)
                (img_memory input_image) (img_memory img)"
proof -
  let ?t = "nat \<lfloor>min_opaque_v * 169 / 256 * 255\<rfloor>"
  let ?step = "\<lambda>row col mem.
     let addr = img_rows input_image ! row + col
     in mem[addr := modify_alpha_pixel to_f to_rgb (img_gamma input_image) min_opaque_v
                    (min_opaque_v * 169 / 256) ?t (mem ! addr)]"
  have start: "alpha_frame ?t (img_memory input_image) (img_memory input_image)"
    by (simp add: alpha_frame_def)
  have cols: "alpha_frame ?t (img_memory input_image) (fold (?step row) cs mem)"
    if "alpha_frame ?t (img_memory input_image) mem" for row cs mem
    using that
    by (rule fold_invariant [rotated]) (simp add: Let_def alpha_frame_step)
  have "alpha_frame ?t (img_memory input_image)
          (fold (\<lambda>row. fold (?step row) [0..<img_width input_image]) [0..<img_height input_image]
             (img_memory input_image))"
    using start by (rule fold_invariant [rotated]) (rule cols)
  then show ?thesis using assms by (simp add: modify_alpha_def Let_def)
qed

theorem modify_alpha_frame_witness:
  "\<exists>img. modify_alpha spec_to_f spec_to_rgb
          \<lparr>img_memory = [\<lparr>px_r = 10, px_g = 20, px_b = 30, px_a = 200\<rparr>,
                         \<lparr>px_r = 40, px_g = 50, px_b = 60, px_a = 83\<rparr>],
           img_rows = [0], img_gamma = 0.45455, img_width = 2, img_height = 1,
           img_noise = None, img_edges = None, img_dither_map = None, img_modified = False\<rparr>
          (128 / 255) = Inr img
      \<and> px_r (img_memory img ! 0) = 10 \<and> px_g (img_memory img ! 0) = 20
      \<and> px_b (img_memory img ! 0) = 30
      \<and> img_memory img ! 1 = \<lparr>px_r = 40, px_g = 50, px_b = 60, px_a = 83\<rparr>"
proof -
  let ?img = "\<lparr>img_memory = [\<lparr>px_r = 10, px_g = 20, px_b = 30, px_a = 200\<rparr>,
                         \<lparr>px_r = 40, px_g = 50, px_b = 60, px_a = 83\<rparr>],
           img_rows = [0], img_gamma = 0.45455, img_width = 2, img_height = 1,
           img_noise = None, img_edges = None, img_dither_map = None, img_modified = False\<rparr>"
  have fits: "rows_in_memory ?img" by (simp add: rows_in_memory_def)
  have t: "nat \<lfloor>(128 / 255 :: real) * 169 / 256 * 255\<rfloor> = 84" by simp
  from modify_alpha_frame [OF fits, of spec_to_f spec_to_rgb "128 / 255"]
  obtain img where img: "modify_alpha spec_to_f spec_to_rgb ?img (128 / 255) = Inr img"
    and fr: "alpha_frame 84 (img_memory ?img) (img_memory img)"
    unfolding t by blast
  from fr have "px_r (img_memory img ! 0) = 10 \<and> px_g (img_memory img ! 0) = 20
      \<and> px_b (img_memory img ! 0) = 30
      \<and> img_memory img ! 1 = \<lparr>px_r = 40, px_g = 50, px_b = 60, px_a = 83\<rparr>"
    by (simp add: alpha_frame_def)
  then show ?thesis using img by blast
qed

text \<open>
  C9 with the threshold as the specification states it, not truncated, fails: for
  \<open>min_opaque_val = 128/255\<close> the threshold is 84.5; a pixel of alpha 84 is below it, yet
  the code, which compares with 84, rewrites its alpha.
\<close>

theorem modify_alpha_threshold_counterexample:
  "real (unat (px_a \<lparr>px_r = 10, px_g = 20, px_b = 30, px_a = 84\<rparr>)) < 128 / 255 * 169 / 256 * 255
   \<and> modify_alpha spec_to_f spec_to_rgb
          \<lparr>img_memory = [\<lparr>px_r = 10, px_g = 20, px_b = 30, px_a = 84\<rparr>],
           img_rows = [0], img_gamma = 0.45455, img_width = 1, img_height = 1,
           img_noise = None, img_edges = None, img_dither_map = None, img_modified = False\<rparr>
          (128 / 255)
     = Inr \<lparr>img_memory = [\<lparr>px_r = 10, px_g = 20, px_b = 30, px_a = 83\<rparr>],
           img_rows = [0], img_gamma = 0.45455, img_width = 1, img_height = 1,
           img_noise = None, img_edges = None, img_dither_map = None, img_modified = True\<rparr>"
  by (simp add: modify_alpha_def rows_in_memory_def modify_alpha_pixel_def spec_to_f_def
        spec_to_rgb_def spec_round_byte_def Let_def)

lemma count_neighbors_ge:
  assumes "lastcol \<le> col"
  shows "2.5 \<le> count_neighbors row_pointers height row lastpixel lastcol col"
proof -
  have "2.5 \<le> fold (\<lambda>i neighbor_count.
             let n1 = (if row > 0 \<and> row_pointers ! (row - 1) ! i = lastpixel
                       then neighbor_count + 1 else neighbor_count);
                 n2 = (if row < height - 1 \<and> row_pointers ! (row + 1) ! i = lastpixel
                       then n1 + 1 else n1)
             in n2) xs (n :: real)" if "2.5 \<le> n" for xs n
    using that by (induction xs arbitrary: n) (simp_all add: Let_def)
  moreover have "(2.5 :: real) \<le> 2.5 + real col - real lastcol" using assms by simp
  ultimately show ?thesis unfolding count_neighbors_def by blast
qed

lemma damped_upto_weaken:
  "damped_upto before bound after \<Longrightarrow> bound \<le> bound' \<Longrightarrow> damped_upto before bound' after"
  by (simp add: damped_upto_def)

lemma damped_upto_run:
  assumes "damped_upto before (base + lo) e" "2.5 \<le> n"
  shows "damped_upto before (base + max lo hi)
           (fold (\<lambda>k e. e[base + k := e ! (base + k) * (1 - 2.5 / n)]) [lo..<hi] e)"
  using assms(1)
proof (induction "hi - lo" arbitrary: lo e)
  case 0
  then have "[lo..<hi] = []" "max lo hi = lo" by simp_all
  then show ?case using "0.prems" by simp
next
  case (Suc d)
  then have lt: "lo < hi" by simp
  then have unfold: "[lo..<hi] = lo # [lo + 1..<hi]" by (simp add: upt_rec)
  let ?e = "e[base + lo := e ! (base + lo) * (1 - 2.5 / n)]"
  have len: "length e = length before" using Suc.prems by (simp add: damped_upto_def)
  have "damped_upto before (base + (lo + 1)) ?e"
    unfolding damped_upto_def
  proof (intro conjI allI impI)
    show "length ?e = length before" using len by simp
  next
    fix k assume k: "k < length before" "base + (lo + 1) \<le> k"
    then show "?e ! k = before ! k" using Suc.prems by (simp add: damped_upto_def)
  next
    fix k assume k: "k < length before"
    show "damped (before ! k) (?e ! k)"
    proof (cases "k = base + lo")
      case True
      then have "e ! k = before ! k" using Suc.prems k by (simp add: damped_upto_def)
      then have "?e ! k = before ! k * (1 - 2.5 / n)" using True k len by simp
      then show ?thesis using assms(2) unfolding damped_def by blast
    next
      case False
      then show ?thesis using Suc.prems k by (simp add: damped_upto_def)
    qed
  qed
  moreover have "d = hi - (lo + 1)" using Suc.hyps(2) by simp
  ultimately have "damped_upto before (base + max (lo + 1) hi)
           (fold (\<lambda>k e. e[base + k := e ! (base + k) * (1 - 2.5 / n)]) [lo + 1..<hi] ?e)"
    using Suc.hyps(1) by blast
  moreover have "max (lo + 1) hi = max lo hi" using lt by simp
  ultimately show ?case by (simp add: unfold)
qed

lemma dither_run_damped:
  assumes "damped_upto before (row * width + lastcol) edges" "lastcol \<le> col"
  shows "\<exists>lastpixel1 lastcol1 edges1.
           dither_run row_pointers width height row col (lastpixel, lastcol, edges)
             = (lastpixel1, lastcol1, edges1)
           \<and> lastcol1 \<le> col + 1 \<and> damped_upto before (row * width + lastcol1) edges1"
proof (cases "row_pointers ! row ! col \<noteq> lastpixel \<or> col = width - 1")
  case False
  then have "dither_run row_pointers width height row col (lastpixel, lastcol, edges)
             = (lastpixel, lastcol, edges)"
    by (simp add: dither_run_def Let_def)
  then show ?thesis using assms by simp
next
  case True
  let ?n = "count_neighbors row_pointers height row lastpixel lastcol col"
  let ?e = "fold (\<lambda>k e. e[row * width + k := e ! (row * width + k) * (1 - 2.5 / ?n)])
              [lastcol..<col + 1] edges"
  have "2.5 \<le> ?n" using assms(2) by (rule count_neighbors_ge)
  then have "damped_upto before (row * width + max lastcol (col + 1)) ?e"
    using assms(1) by (intro damped_upto_run)
  moreover have "max lastcol (col + 1) = col + 1" using assms(2) by simp
  moreover have "dither_run row_pointers width height row col (lastpixel, lastcol, edges)
             = (row_pointers ! row ! col, col + 1, ?e)"
    using True assms(2) by (simp add: dither_run_def Let_def)
  ultimately show ?thesis by simp
qed

lemma dither_cols_damped:
  assumes "damped_upto before (row * width + lastcol) edges" "lastcol \<le> lo"
  shows "\<exists>lastpixel1 lastcol1 edges1.
           fold (dither_run row_pointers width height row) [lo..<hi] (lastpixel, lastcol, edges)
             = (lastpixel1, lastcol1, edges1)
           \<and> lastcol1 \<le> max lo hi \<and> damped_upto before (row * width + lastcol1) edges1"
  using assms
proof (induction "hi - lo" arbitrary: lo lastpixel lastcol edges)
  case 0
  then have "fold (dither_run row_pointers width height row) [lo..<hi] (lastpixel, lastcol, edges)
               = (lastpixel, lastcol, edges)"
    by simp
  moreover have "lastcol \<le> max lo hi" using "0.prems"(2) by simp
  ultimately show ?case using "0.prems"(1) by blast
next
  case (Suc d)
  then have lt: "lo < hi" by simp
  then have unfold: "[lo..<hi] = lo # [lo + 1..<hi]" by (simp add: upt_rec)
  obtain lp1 lc1 e1 where
    step: "dither_run row_pointers width height row lo (lastpixel, lastcol, edges) = (lp1, lc1, e1)"
    and lc1: "lc1 \<le> lo + 1" and d1: "damped_upto before (row * width + lc1) e1"
    using dither_run_damped [OF Suc.prems] by blast
  have "d = hi - (lo + 1)" using Suc.hyps(2) by simp
  then obtain lp2 lc2 e2 where
    rest: "fold (dither_run row_pointers width height row) [lo + 1..<hi] (lp1, lc1, e1) = (lp2, lc2, e2)"
    and lc2: "lc2 \<le> max (lo + 1) hi" and d2: "damped_upto before (row * width + lc2) e2"
    using Suc.hyps(1) [OF _ d1 lc1] by blast
  have "max (lo + 1) hi = max lo hi" using lt by simp
  then show ?case using step rest lc2 d2 by (simp add: unfold)
qed

lemma dither_row_damped:
  assumes "damped_upto before (row * width) edges"
  shows "damped_upto before ((row + 1) * width) (dither_row row_pointers width height row edges)"
proof -
  obtain lp lc e where
    run: "fold (dither_run row_pointers width height row) [1..<width]
            (row_pointers ! row ! 0, 0, edges) = (lp, lc, e)"
    and lc: "lc \<le> max 1 width" and d: "damped_upto before (row * width + lc) e"
    using dither_cols_damped [where before = before and row = row and width = width
        and lastcol = 0 and edges = edges and lo = 1 and hi = width
        and row_pointers = row_pointers and height = height
        and lastpixel = "row_pointers ! row ! 0"] assms
    by auto
  have e: "dither_row row_pointers width height row edges = e"
    using run by (simp add: dither_row_def)
  show ?thesis
  proof (cases "width = 0")
    case True
    then have "e = edges" using run by simp
    then show ?thesis using assms True e by simp
  next
    case False
    then have "lc \<le> width" using lc by simp
    then have "row * width + lc \<le> (row + 1) * width" by simp
    then show ?thesis using d e damped_upto_weaken by blast
  qed
qed

lemma dither_rows_damped:
  assumes "damped_upto before (lo * width) edges"
  shows "damped_upto before (max lo hi * width)
           (fold (dither_row row_pointers width height) [lo..<hi] edges)"
  using assms
proof (induction "hi - lo" arbitrary: lo edges)
  case 0
  then have "[lo..<hi] = []" "max lo hi = lo" by simp_all
  then show ?case using "0.prems" by simp
next
  case (Suc d)
  then have lt: "lo < hi" by simp
  then have unfold: "[lo..<hi] = lo # [lo + 1..<hi]" by (simp add: upt_rec)
  have "damped_upto before ((lo + 1) * width) (dither_row row_pointers width height lo edges)"
    using Suc.prems by (rule dither_row_damped)
  moreover have "d = hi - (lo + 1)" using Suc.hyps(2) by simp
  ultimately have "damped_upto before (max (lo + 1) hi * width)
           (fold (dither_row row_pointers width height) [lo + 1..<hi]
              (dither_row row_pointers width height lo edges))"
    using Suc.hyps(1) by blast
  moreover have "max (lo + 1) hi = max lo hi" using lt by simp
  ultimately show ?case by (simp add: unfold)
qed

lemma damped_le:
  assumes "damped before after" "0 \<le> before"
  shows "after \<le> before"
proof -
  from assms(1) consider "after = before"
    | n where "(2.5::real) \<le> n" "after = before * (1 - 2.5 / n)"
    unfolding damped_def by blast
  then show ?thesis
  proof cases
    case 1
    then show ?thesis by simp
  next
    case 2
    then have "0 < n" by simp
    then have "0 \<le> 2.5 / n" by simp
    then have "1 - 2.5 / n \<le> 1" by simp
    then have "before * (1 - 2.5 / n) \<le> before * 1"
      using assms(2) by (intro mult_left_mono) simp_all
    then show ?thesis using 2 by simp
  qed
qed

lemma damping_factor_range:
  assumes "(2.5::real) \<le> n"
  shows "0 \<le> 1 - 2.5 / n \<and> 1 - 2.5 / n < 1"
proof -
  have pos: "0 < n" using assms by simp
  then have "2.5 / n \<le> 1" using assms by (simp add: divide_le_eq)
  moreover have "0 < 2.5 / n" using pos by simp
  ultimately show ?thesis by simp
qed

text \<open>
  C10: for an image with a non-negative edges map and an index plane of the image's size,
  \<open>update_dither_map\<close> returns an image that has a dither map and no edges map; the
  dither map has the cells of the edges map, each one either unchanged or multiplied once
  by a factor \<open>1 - 2.5/neighbor_count\<close> that lies in [0,1), and so none is greater
  than before.
\<close>

theorem update_dither_map_never_increases:
  assumes "plane_fits row_pointers input_image"
    and "img_edges input_image = Some edges"
    and "\<forall>x \<in> set edges. 0 \<le> x"
  shows "\<exists>img dither_map.
           update_dither_map row_pointers input_image = Inr img
           \<and> img_dither_map img = Some dither_map \<and> img_edges img = None
           \<and> length dither_map = length edges
           \<and> (\<forall>k < length edges.
                 dither_map ! k \<le> edges ! k
                 \<and> (dither_map ! k = edges ! k
                    \<or> (\<exists>neighbor_count \<ge> 2.5.
                          dither_map ! k = edges ! k * (1 - 2.5 / neighbor_count)
                          \<and> 0 \<le> 1 - 2.5 / neighbor_count \<and> 1 - 2.5 / neighbor_count < 1)))"
proof -
  let ?d = "fold (dither_row row_pointers (img_width input_image) (img_height input_image))
              [0..<img_height input_image] edges"
  have "damped_upto edges (0 * img_width input_image) edges"
    by (simp add: damped_upto_def damped_def)
  then have "damped_upto edges (max 0 (img_height input_image) * img_width input_image) ?d"
    by (rule dither_rows_damped)
  then have len: "length ?d = length edges"
    and each: "\<forall>k < length edges. damped (edges ! k) (?d ! k)"
    by (simp_all add: damped_upto_def)
  have cells: "\<forall>k < length edges.
                 ?d ! k \<le> edges ! k
                 \<and> (?d ! k = edges ! k
                    \<or> (\<exists>neighbor_count \<ge> 2.5.
                          ?d ! k = edges ! k * (1 - 2.5 / neighbor_count)
                          \<and> 0 \<le> 1 - 2.5 / neighbor_count \<and> 1 - 2.5 / neighbor_count < 1))"
  proof (intro allI impI)
    fix k assume k: "k < length edges"
    then have d: "damped (edges ! k) (?d ! k)" using each by simp
    have "0 \<le> edges ! k" using assms(3) k by simp
    with d have "?d ! k \<le> edges ! k" by (rule damped_le)
    moreover have "?d ! k = edges ! k
                    \<or> (\<exists>neighbor_count \<ge> 2.5.
                          ?d ! k = edges ! k * (1 - 2.5 / neighbor_count)
                          \<and> 0 \<le> 1 - 2.5 / neighbor_count \<and> 1 - 2.5 / neighbor_count < 1)"
      using d damping_factor_range unfolding damped_def by blast
    ultimately show "?d ! k \<le> edges ! k
                 \<and> (?d ! k = edges ! k
                    \<or> (\<exists>neighbor_count \<ge> 2.5.
                          ?d ! k = edges ! k * (1 - 2.5 / neighbor_count)
                          \<and> 0 \<le> 1 - 2.5 / neighbor_count \<and> 1 - 2.5 / neighbor_count < 1))"
      by blast
  qed
  have "update_dither_map row_pointers input_image
          = Inr (input_image\<lparr>img_dither_map := Some ?d, img_edges := None\<rparr>)"
    using assms(1,2) by (simp add: update_dither_map_def Let_def)
  then show ?thesis using len cells by simp
qed

theorem update_dither_map_never_increases_witness:
  "\<exists>img dither_map.
      update_dither_map [[0, 0], [0, 1]]
          \<lparr>img_memory = [], img_rows = [], img_gamma = 0.45455, img_width = 2, img_height = 2,
           img_noise = None, img_edges = Some [1, 1 / 2, 1 / 4, 1], img_dither_map = None,
           img_modified = False\<rparr> = Inr img
      \<and> img_dither_map img = Some dither_map \<and> img_edges img = None
      \<and> length dither_map = 4
      \<and> dither_map ! 0 \<le> 1 \<and> dither_map ! 1 \<le> 1 / 2 \<and> dither_map ! 2 \<le> 1 / 4
      \<and> dither_map ! 3 \<le> 1"
proof -
  let ?img = "\<lparr>img_memory = [], img_rows = [], img_gamma = 0.45455, img_width = 2, img_height = 2,
           img_noise = None, img_edges = Some [1, 1 / 2, 1 / 4, 1], img_dither_map = None,
           img_modified = False\<rparr>"
  have fits: "plane_fits [[0, 0], [0, 1]] ?img"
    by (simp add: plane_fits_def less_Suc_eq numeral_2_eq_2)
  have edges: "img_edges ?img = Some [1, 1 / 2, 1 / 4, 1]" by simp
  have nonneg: "\<forall>x \<in> set [1, 1 / 2, 1 / 4, 1 :: real]. 0 \<le> x" by simp
  from update_dither_map_never_increases [OF fits edges nonneg]
  obtain img dither_map where r: "update_dither_map [[0, 0], [0, 1]] ?img = Inr img"
    "img_dither_map img = Some dither_map" "img_edges img = None"
    "length dither_map = length [1, 1 / 2, 1 / 4, 1 :: real]"
    and cells: "\<forall>k < length [1, 1 / 2, 1 / 4, 1 :: real]. dither_map ! k \<le> [1, 1 / 2, 1 / 4, 1] ! k"
    by blast
  have "dither_map ! 0 \<le> 1" using cells [rule_format, of 0] by simp
  moreover have "dither_map ! 1 \<le> 1 / 2" using cells [rule_format, of 1] by simp
  moreover have "dither_map ! 2 \<le> 1 / 4" using cells [rule_format, of 2] by simp
  moreover have "dither_map ! 3 \<le> 1" using cells [rule_format, of 3] by simp
  ultimately show ?thesis using r by auto
qed

section \<open>Properties of remapping\<close>

lemma floyd_cols_forward:
  assumes "col < cols"
  shows "floyd_cols cols body True col state = fold body [col..<cols] state"
  using assms
proof (induction "cols - col" arbitrary: col state)
  case 0
  then show ?case by simp
next
  case (Suc d)
  have unfold: "[col..<cols] = col # [col + 1..<cols]" using Suc.prems by (simp add: upt_rec)
  show ?case
  proof (cases "col + 1 \<ge> cols")
    case True
    then have "fold body [col + 1..<cols] (body col state) = body col state" by simp
    moreover have "floyd_cols cols body True col state = body col state"
      using True by (subst floyd_cols.simps) simp
    ultimately show ?thesis by (simp only: unfold fold_simps)
  next
    case False
    then have "floyd_cols cols body True (col + 1) (body col state)
                 = fold body [col + 1..<cols] (body col state)"
      using Suc.hyps by (intro Suc.hyps(1)) simp_all
    moreover have "floyd_cols cols body True col state
                 = floyd_cols cols body True (col + 1) (body col state)"
      using False by (subst floyd_cols.simps) (simp add: Let_def)
    ultimately show ?thesis by (simp add: unfold)
  qed
qed

lemma floyd_cols_backward:
  "floyd_cols cols body False col state = fold body (rev [0..<col + 1]) state"
proof (induction col arbitrary: state)
  case 0
  show ?case by (subst floyd_cols.simps) simp
next
  case (Suc col)
  have "floyd_cols cols body False (Suc col) state
          = floyd_cols cols body False col (body (Suc col) state)"
    by (subst floyd_cols.simps) (simp add: Let_def)
  then show ?case using Suc.IH by simp
qed

lemma floyd_cols_serpentine:
  assumes "0 < cols"
  shows "floyd_cols cols body fs_direction (if fs_direction then 0 else cols - 1) state
           = fold body (serpentine_columns fs_direction cols) state"
proof (cases fs_direction)
  case True
  then show ?thesis using assms floyd_cols_forward [of 0 cols body state]
    by (simp add: serpentine_columns_def)
next
  case False
  then show ?thesis using assms floyd_cols_backward [of cols body "cols - 1" state]
    by (simp add: serpentine_columns_def)
qed

lemma add_error_nth:
  "length (add_error errs k err w) = length errs"
  "j < length errs \<Longrightarrow> add_error errs k err w ! j
     = (if j = k then plus_scaled (errs ! j) (w / 16) err else errs ! j)"
  by (simp_all add: add_error_def plus_scaled_def)

lemma plus_scaled_zero: "plus_scaled p 0 err = p"
  by (simp add: plus_scaled_def)

lemma propagate_distributes:
  assumes "col + 2 < length thiserr" "col + 2 < length nexterr"
  shows "propagate fs_direction col err (thiserr, nexterr)
           = fs_distribute fs_direction col err (thiserr, nexterr)"
proof -
  have len1: "length (fst (propagate fs_direction col err (thiserr, nexterr))) = length thiserr"
    by (simp add: propagate_def add_error_nth)
  have len2: "length (snd (propagate fs_direction col err (thiserr, nexterr))) = length nexterr"
    by (simp add: propagate_def add_error_nth)
  have this_row: "fst (propagate fs_direction col err (thiserr, nexterr))
                    = fst (fs_distribute fs_direction col err (thiserr, nexterr))"
  proof (rule nth_equalityI)
    show "length (fst (propagate fs_direction col err (thiserr, nexterr)))
            = length (fst (fs_distribute fs_direction col err (thiserr, nexterr)))"
      by (simp add: propagate_def fs_distribute_def add_error_nth)
  next
    fix j assume "j < length (fst (propagate fs_direction col err (thiserr, nexterr)))"
    then have j: "j < length thiserr" by (simp only: len1)
    then show "fst (propagate fs_direction col err (thiserr, nexterr)) ! j
                 = fst (fs_distribute fs_direction col err (thiserr, nexterr)) ! j"
      by (simp add: propagate_def fs_distribute_def add_error_nth fs_ahead_def plus_scaled_zero)
  qed
  have next_row: "snd (propagate fs_direction col err (thiserr, nexterr))
                    = snd (fs_distribute fs_direction col err (thiserr, nexterr))"
  proof (rule nth_equalityI)
    show "length (snd (propagate fs_direction col err (thiserr, nexterr)))
            = length (snd (fs_distribute fs_direction col err (thiserr, nexterr)))"
      by (simp add: propagate_def fs_distribute_def add_error_nth)
  next
    fix j assume "j < length (snd (propagate fs_direction col err (thiserr, nexterr)))"
    then have j: "j < length nexterr" by (simp only: len2)
    then show "snd (propagate fs_direction col err (thiserr, nexterr)) ! j
                 = snd (fs_distribute fs_direction col err (thiserr, nexterr)) ! j"
      by (simp add: propagate_def fs_distribute_def add_error_nth fs_ahead_def fs_behind_def
            plus_scaled_zero)
  qed
  show ?thesis using this_row next_row by (simp add: prod_eq_iff)
qed

lemma fold_cong_invariant:
  assumes "I s" "\<And>x s. x \<in> set xs \<Longrightarrow> I s \<Longrightarrow> f x s = g x s \<and> I (g x s)"
  shows "fold f xs s = fold g xs s \<and> I (fold g xs s)"
  using assms
proof (induction xs arbitrary: s)
  case Nil
  then show ?case by simp
next
  case (Cons x xs)
  have step: "f x s = g x s" "I (g x s)" using Cons.prems by simp_all
  have "fold f xs (g x s) = fold g xs (g x s) \<and> I (fold g xs (g x s))"
    using step(2) Cons.prems(2) by (intro Cons.IH) simp_all
  then show ?case using step(1) by simp
qed

lemma fs_distribute_sized:
  "length (fst (fs_distribute d col err (t, n))) = length t"
  "length (snd (fs_distribute d col err (t, n))) = length n"
  by (simp_all add: fs_distribute_def)

lemma floyd_pixel_serpentine:
  assumes "col < cols" "error_rows_sized cols state"
  shows "floyd_pixel fr row d col state = serpentine_pixel fr row d col state
         \<and> error_rows_sized cols (serpentine_pixel fr row d col state)"
proof -
  obtain out t n where state: "state = (out, t, n)" by (cases state) auto
  have len: "length t = cols + 2" "length n = cols + 2"
    using assms(2) by (simp_all add: error_rows_sized_def state)
  obtain ind err where m: "floyd_match fr row col out (t ! (col + 1)) = (ind, err)"
    by (cases "floyd_match fr row col out (t ! (col + 1))") auto
  have eq: "propagate d col err (t, n) = fs_distribute d col err (t, n)"
    using assms(1) len by (intro propagate_distributes) simp_all
  obtain t1 n1 where d: "fs_distribute d col err (t, n) = (t1, n1)"
    by (cases "fs_distribute d col err (t, n)") auto
  have "length t1 = cols + 2" "length n1 = cols + 2"
    using fs_distribute_sized [of d col err t n] d len by simp_all
  then show ?thesis
    using m eq d
    by (simp add: floyd_pixel_def serpentine_pixel_def state error_rows_sized_def)
qed

lemma serpentine_columns_bound: "col \<in> set (serpentine_columns d cols) \<Longrightarrow> col < cols"
  by (simp add: serpentine_columns_def split: if_splits)

lemma floyd_cols_row:
  assumes "0 < cols" "error_rows_sized cols state"
  shows "floyd_cols cols (floyd_pixel fr row d) d (if d then 0 else cols - 1) state
           = fold (serpentine_pixel fr row d) (serpentine_columns d cols) state
         \<and> error_rows_sized cols
             (fold (serpentine_pixel fr row d) (serpentine_columns d cols) state)"
proof -
  have "fold (floyd_pixel fr row d) (serpentine_columns d cols) state
          = fold (serpentine_pixel fr row d) (serpentine_columns d cols) state
        \<and> error_rows_sized cols
            (fold (serpentine_pixel fr row d) (serpentine_columns d cols) state)"
    using assms(2)
  proof (rule fold_cong_invariant)
    fix col s
    assume "col \<in> set (serpentine_columns d cols)" "error_rows_sized cols s"
    then show "floyd_pixel fr row d col s = serpentine_pixel fr row d col s
                 \<and> error_rows_sized cols (serpentine_pixel fr row d col s)"
      using floyd_pixel_serpentine serpentine_columns_bound by blast
  qed
  moreover have "floyd_cols cols (floyd_pixel fr row d) d (if d then 0 else cols - 1) state
                   = fold (floyd_pixel fr row d) (serpentine_columns d cols) state"
    by (rule floyd_cols_serpentine [OF assms(1)])
  ultimately show ?thesis by (simp only:)
qed

lemma floyd_rows_serpentine:
  assumes "rows = 0 \<or> 0 < cols" "length thiserr = cols + 2"
  shows "floyd_rows rows cols (floyd_pixel fr) row (even row) (out, thiserr, nexterr)
           = fold (serpentine_row fr cols) [row..<rows] (out, thiserr, nexterr)"
  using assms(2)
proof (induction "rows - row" arbitrary: row out thiserr nexterr)
  case 0
  then have "\<not> row < rows" by simp
  then have "floyd_rows rows cols (floyd_pixel fr) row (even row) (out, thiserr, nexterr)
               = (out, thiserr, nexterr)"
    by (subst floyd_rows.simps) simp
  moreover have "fold (serpentine_row fr cols) [row..<rows] (out, thiserr, nexterr)
               = (out, thiserr, nexterr)"
    using 0 by simp
  ultimately show ?case by simp
next
  case (Suc d)
  then have lt: "row < rows" by simp
  then have unfold: "[row..<rows] = row # [row + 1..<rows]" by (simp add: upt_rec)
  have cols: "0 < cols" using assms(1) lt by auto
  let ?start = "(out, thiserr, replicate (cols + 2) zero_error)"
  let ?fin = "fold (serpentine_pixel fr row (even row)) (serpentine_columns (even row) cols) ?start"
  have sized: "error_rows_sized cols ?start"
    using Suc.prems by (simp add: error_rows_sized_def)
  have cols_eq: "floyd_cols cols (floyd_pixel fr row (even row)) (even row)
                   (if even row then 0 else cols - 1) ?start = ?fin"
    and fin_sized: "error_rows_sized cols ?fin"
    using floyd_cols_row [OF cols sized, of fr row "even row"] by simp_all
  obtain out1 t1 n1 where fin: "?fin = (out1, t1, n1)" by (cases ?fin) auto
  have n1: "length n1 = cols + 2" using fin_sized fin by (simp add: error_rows_sized_def)
  have step: "floyd_rows rows cols (floyd_pixel fr) row (even row) (out, thiserr, nexterr)
                = floyd_rows rows cols (floyd_pixel fr) (row + 1) (even (row + 1)) (out1, n1, t1)"
    using lt cols_eq fin by (subst floyd_rows.simps) (simp add: Let_def)
  have "d = rows - (row + 1)" using Suc.hyps(2) by simp
  then have rest: "floyd_rows rows cols (floyd_pixel fr) (row + 1) (even (row + 1)) (out1, n1, t1)
                = fold (serpentine_row fr cols) [row + 1..<rows] (out1, n1, t1)"
    using Suc.hyps(1) n1 by blast
  have "serpentine_row fr cols row (out, thiserr, nexterr) = (out1, n1, t1)"
    using fin by (simp add: serpentine_row_def)
  then show ?case using step rest by (simp add: unfold)
qed

text \<open>
  C5: the dithered remapper of the source computes what the remapper in the words of the
  specification computes. So each pixel's scaled residual error goes with weight 7/16 to
  the next pixel in the travel direction, and with weights 3/16, 5/16 and 1/16 to the next
  row behind, below and ahead of the pixel; the rows are handled from the first to the
  last, the first one left to right and then in alternating directions, with the weights
  mirrored.
\<close>

theorem floyd_steinberg_serpentine:
  assumes "remap_fits input_image output_pixels
             (fr_dither_map (floyd_setup ext input_image cmap min_opaque_v use_dmap
                               output_image_is_remapped max_dither_error))"
  shows "remap_to_palette_floyd ext input_image output_pixels cmap min_opaque_v use_dmap
           output_image_is_remapped max_dither_error
         = Inr (floyd_serpentine ext input_image output_pixels cmap min_opaque_v use_dmap
                  output_image_is_remapped max_dither_error)"
proof -
  have cols: "img_height input_image = 0 \<or> 0 < img_width input_image"
    using assms by (auto simp: remap_fits_def)
  have "length (initial_error ext (img_width input_image)) = img_width input_image + 2"
    by (simp add: initial_error_def)
  then have "floyd_rows (img_height input_image) (img_width input_image)
          (floyd_pixel (floyd_setup ext input_image cmap min_opaque_v use_dmap
                          output_image_is_remapped max_dither_error)) 0 (even (0::nat))
          (output_pixels, initial_error ext (img_width input_image),
           replicate (img_width input_image + 2) zero_error)
        = fold (serpentine_row (floyd_setup ext input_image cmap min_opaque_v use_dmap
                                  output_image_is_remapped max_dither_error)
                  (img_width input_image))
            [0..<img_height input_image]
            (output_pixels, initial_error ext (img_width input_image),
             replicate (img_width input_image + 2) zero_error)"
    by (rule floyd_rows_serpentine [OF cols])
  then show ?thesis
    using assms by (simp add: remap_to_palette_floyd_def floyd_serpentine_def Let_def)
qed

lemma error_row_cells: "[0..<4::nat] = [0, 1, 2, 3]" "[0..<2::nat] = [0, 1]"
  by (simp_all add: upt_rec)

lemma serpentine_pixel_cells:
  assumes "floyd_match fr row col out ([c0, c1, c2, c3] ! (col + 1)) = (ind, err)"
  shows "serpentine_pixel fr row d col (out, [c0, c1, c2, c3], [n0, n1, n2, n3])
     = (out[row := (out ! row)[col := of_nat ind]],
        [plus_scaled c0 (if 0 = fs_ahead d col then 7 / 16 else 0) err,
         plus_scaled c1 (if 1 = fs_ahead d col then 7 / 16 else 0) err,
         plus_scaled c2 (if 2 = fs_ahead d col then 7 / 16 else 0) err,
         plus_scaled c3 (if 3 = fs_ahead d col then 7 / 16 else 0) err],
        [plus_scaled n0 (if 0 = fs_behind d col then 3 / 16
                         else if 0 = col + 1 then 5 / 16
                         else if 0 = fs_ahead d col then 1 / 16 else 0) err,
         plus_scaled n1 (if 1 = fs_behind d col then 3 / 16
                         else if 1 = col + 1 then 5 / 16
                         else if 1 = fs_ahead d col then 1 / 16 else 0) err,
         plus_scaled n2 (if 2 = fs_behind d col then 3 / 16
                         else if 2 = col + 1 then 5 / 16
                         else if 2 = fs_ahead d col then 1 / 16 else 0) err,
         plus_scaled n3 (if 3 = fs_behind d col then 3 / 16
                         else if 3 = col + 1 then 5 / 16
                         else if 3 = fs_ahead d col then 1 / 16 else 0) err])"
  using assms by (simp add: serpentine_pixel_def fs_distribute_def error_row_cells)

lemma serpentine_pixel_output:
  "fst (serpentine_pixel fr row d col (out, cur, nxt))
     = out[row := (out ! row)[col := of_nat (fst (floyd_match fr row col out (cur ! (col + 1))))]]"
  by (simp add: serpentine_pixel_def split: prod.splits)

lemma serpentine_row_output:
  "fst (serpentine_row fr cols row (out, cur, spare))
     = fst (fold (serpentine_pixel fr row (even row)) (serpentine_columns (even row) cols)
              (out, cur, replicate (cols + 2) zero_error))"
  by (simp add: serpentine_row_def split: prod.splits)

theorem floyd_steinberg_serpentine_witness:
  "remap_to_palette_floyd
     \<lparr>ext_to_f = (\<lambda>gamma px. \<lparr>f_a = real (unat (px_a px)) / 255, f_r = real (unat (px_r px)) / 255,
                               f_g = real (unat (px_g px)) / 255, f_b = real (unat (px_b px)) / 255\<rparr>),
      ext_to_rgb = (\<lambda>gamma px. \<lparr>px_r = of_int \<lfloor>f_r px * 255\<rfloor>, px_g = of_int \<lfloor>f_g px * 255\<rfloor>,
                                 px_b = of_int \<lfloor>f_b px * 255\<rfloor>, px_a = of_int \<lfloor>f_a px * 255\<rfloor>\<rparr>),
      ext_colordifference = (\<lambda>p q. (f_r p - f_r q) * (f_r p - f_r q)),
      ext_nearest_search = (\<lambda>cmap px m. (if f_r px < 1 / 2 then 0 else 1, 0)),
      ext_rand = (\<lambda>k. 1), ext_RAND_MAX = 2, ext_MAX_DIFF = 10 ^ 20\<rparr>
     \<lparr>img_memory = [\<lparr>px_r = 102, px_g = 102, px_b = 102, px_a = 255\<rparr>,
                    \<lparr>px_r = 102, px_g = 102, px_b = 102, px_a = 255\<rparr>,
                    \<lparr>px_r = 102, px_g = 102, px_b = 102, px_a = 255\<rparr>,
                    \<lparr>px_r = 102, px_g = 102, px_b = 102, px_a = 255\<rparr>],
      img_rows = [0, 2], img_gamma = 1, img_width = 2, img_height = 2,
      img_noise = None, img_edges = None, img_dither_map = None, img_modified = False\<rparr>
     [[9, 9], [9, 9]]
     [\<lparr>acolor = \<lparr>f_a = 1, f_r = 0, f_g = 0, f_b = 0\<rparr>, popularity = 1\<rparr>,
      \<lparr>acolor = \<lparr>f_a = 1, f_r = 1, f_g = 1, f_b = 1\<rparr>, popularity = 1\<rparr>]
     1 False False (1 / 16)
   = Inr [[0, 1], [1, 0]]"
proof -
  let ?ext = "\<lparr>ext_to_f = (\<lambda>gamma px. \<lparr>f_a = real (unat (px_a px)) / 255, f_r = real (unat (px_r px)) / 255,
                               f_g = real (unat (px_g px)) / 255, f_b = real (unat (px_b px)) / 255\<rparr>),
      ext_to_rgb = (\<lambda>gamma px. \<lparr>px_r = of_int \<lfloor>f_r px * 255\<rfloor>, px_g = of_int \<lfloor>f_g px * 255\<rfloor>,
                                 px_b = of_int \<lfloor>f_b px * 255\<rfloor>, px_a = of_int \<lfloor>f_a px * 255\<rfloor>\<rparr>),
      ext_colordifference = (\<lambda>p q. (f_r p - f_r q) * (f_r p - f_r q)),
      ext_nearest_search = (\<lambda>cmap px m. (if f_r px < 1 / 2 then 0 else 1, 0)),
      ext_rand = (\<lambda>k. 1), ext_RAND_MAX = 2, ext_MAX_DIFF = 10 ^ 20\<rparr>
      :: externs"
  let ?img = "\<lparr>img_memory = [\<lparr>px_r = 102, px_g = 102, px_b = 102, px_a = 255\<rparr>,
                    \<lparr>px_r = 102, px_g = 102, px_b = 102, px_a = 255\<rparr>,
                    \<lparr>px_r = 102, px_g = 102, px_b = 102, px_a = 255\<rparr>,
                    \<lparr>px_r = 102, px_g = 102, px_b = 102, px_a = 255\<rparr>],
      img_rows = [0, 2], img_gamma = 1, img_width = 2, img_height = 2,
      img_noise = None, img_edges = None, img_dither_map = None, img_modified = False\<rparr>"
  let ?cmap = "[\<lparr>acolor = \<lparr>f_a = 1, f_r = 0, f_g = 0, f_b = 0\<rparr>, popularity = 1\<rparr>,
      \<lparr>acolor = \<lparr>f_a = 1, f_r = 1, f_g = 1, f_b = 1\<rparr>, popularity = (1::real)\<rparr>]"
  let ?fr = "floyd_setup ?ext ?img ?cmap 1 False False (1 / 16)"
  let ?e = "\<lambda>x. \<lparr>f_a = 0, f_r = x, f_g = x, f_b = x\<rparr> :: f_pixel"
  have fits: "remap_fits ?img [[9, 9], [9, 9]] (fr_dither_map ?fr)"
    by (simp add: remap_fits_def plane_covers_def floyd_setup_def rows_in_memory_def
          less_Suc_eq numeral_2_eq_2)
  have noise: "initial_error ?ext 2 = [?e 0, ?e 0, ?e 0, ?e 0]"
    by (simp add: initial_error_def error_row_cells)
  have spare: "replicate (2 + 2) zero_error = [?e 0, ?e 0, ?e 0, ?e 0]"
    by (simp add: zero_error_def numeral_eq_Suc)
  have px: "ext_to_f ?ext 1 \<lparr>px_r = 102, px_g = 102, px_b = 102, px_a = 255\<rparr>
              = \<lparr>f_a = 1, f_r = 2 / 5, f_g = 2 / 5, f_b = 2 / 5\<rparr>"
    by simp
  have dithered_2: "get_dithered_pixel (15 / 16) (1 / 16) (?e (63 / 512))
                      \<lparr>f_a = 1, f_r = 2 / 5, f_g = 2 / 5, f_b = 2 / 5\<rparr>
                    = \<lparr>f_a = 1, f_r = 21109 / 40960, f_g = 21109 / 40960, f_b = 21109 / 40960\<rparr>"
    by (simp add: get_dithered_pixel_def min_4_def Let_def)
  have dithered_3: "get_dithered_pixel (15 / 16) (1 / 16) (?e (- (745839 / 8388608)))
                      \<lparr>f_a = 1, f_r = 2 / 5, f_g = 2 / 5, f_b = 2 / 5\<rparr>
                    = \<lparr>f_a = 1, f_r = 212497531 / 671088640, f_g = 212497531 / 671088640,
                         f_b = 212497531 / 671088640\<rparr>"
    by (simp add: get_dithered_pixel_def min_4_def Let_def)
  have dithered_4: "get_dithered_pixel (15 / 16) (1 / 16) (?e (16685492805 / 137438953472))
                      \<lparr>f_a = 1, f_r = 2 / 5, f_g = 2 / 5, f_b = 2 / 5\<rparr>
                    = \<lparr>f_a = 1, f_r = 5649458471479 / 10995116277760,
                         f_g = 5649458471479 / 10995116277760,
                         f_b = 5649458471479 / 10995116277760\<rparr>"
    by (simp add: get_dithered_pixel_def min_4_def Let_def)
  have match_1: "floyd_match ?fr 0 0 out ([?e 0, ?e 0, ?e 0, ?e 0] ! (0 + 1)) = (0, ?e (9 / 32))"
    for out
    by (simp add: floyd_match_def floyd_setup_def get_dithered_pixel_def min_4_def Let_def)
  have pixel_1: "serpentine_pixel ?fr 0 True 0
                   ([[9, 9], [9, 9]], [?e 0, ?e 0, ?e 0, ?e 0], [?e 0, ?e 0, ?e 0, ?e 0])
                 = ([[0, 9], [9, 9]], [?e 0, ?e 0, ?e (63 / 512), ?e 0],
                    [?e (27 / 512), ?e (45 / 512), ?e (9 / 512), ?e 0])"
    by (simp only: serpentine_pixel_cells [OF match_1])
       (simp add: plus_scaled_def fs_ahead_def fs_behind_def)
  have match_2: "floyd_match ?fr 0 1 out ([?e 0, ?e 0, ?e (63 / 512), ?e 0] ! (1 + 1))
                   = (1, ?e (- (178659 / 524288)))" for out
    by (simp add: floyd_match_def floyd_setup_def dithered_2 Let_def)
  have pixel_2: "serpentine_pixel ?fr 0 True 1
                   ([[0, 9], [9, 9]], [?e 0, ?e 0, ?e (63 / 512), ?e 0],
                    [?e (27 / 512), ?e (45 / 512), ?e (9 / 512), ?e 0])
                 = ([[0, 1], [9, 9]],
                    [?e 0, ?e 0, ?e (63 / 512), ?e (- (1250613 / 8388608))],
                    [?e (27 / 512), ?e (201303 / 8388608), ?e (- (745839 / 8388608)),
                     ?e (- (178659 / 8388608))])"
    by (simp only: serpentine_pixel_cells [OF match_2])
       (simp add: plus_scaled_def fs_ahead_def fs_behind_def)
  have row_1: "serpentine_row ?fr 2 0
                 ([[9, 9], [9, 9]], [?e 0, ?e 0, ?e 0, ?e 0], [?e 0, ?e 0, ?e 0, ?e 0])
               = ([[0, 1], [9, 9]],
                  [?e (27 / 512), ?e (201303 / 8388608), ?e (- (745839 / 8388608)),
                   ?e (- (178659 / 8388608))],
                  [?e 0, ?e 0, ?e (63 / 512), ?e (- (1250613 / 8388608))])"
    by (simp only: serpentine_row_def serpentine_columns_def error_row_cells spare
          even_zero if_True fold_simps prod.case pixel_1 pixel_2 id_apply)
  have match_3: "floyd_match ?fr 1 1 out
                   ([?e (27 / 512), ?e (201303 / 8388608), ?e (- (745839 / 8388608)),
                     ?e (- (178659 / 8388608))] ! (1 + 1))
                   = (0, ?e (1912477779 / 8589934592))" for out
    by (simp add: floyd_match_def floyd_setup_def dithered_3 Let_def)
  have pixel_3: "serpentine_pixel ?fr 1 False 1
                   ([[0, 1], [9, 9]],
                    [?e (27 / 512), ?e (201303 / 8388608), ?e (- (745839 / 8388608)),
                     ?e (- (178659 / 8388608))],
                    [?e 0, ?e 0, ?e 0, ?e 0])
                 = ([[0, 1], [9, 0]],
                    [?e (27 / 512), ?e (16685492805 / 137438953472),
                     ?e (- (745839 / 8388608)), ?e (- (178659 / 8388608))],
                    [?e 0, ?e (1912477779 / 137438953472), ?e (9562388895 / 137438953472),
                     ?e (5737433337 / 137438953472)])"
    by (simp only: serpentine_pixel_cells [OF match_3])
       (simp add: plus_scaled_def fs_ahead_def fs_behind_def)
  have match_4: "fst (floyd_match ?fr 1 0 out
                   ([?e (27 / 512), ?e (16685492805 / 137438953472),
                     ?e (- (745839 / 8388608)), ?e (- (178659 / 8388608))] ! (0 + 1))) = 1"
    for out
    by (simp add: floyd_match_def floyd_setup_def dithered_4 Let_def)
  have pixel_4: "fst (serpentine_pixel ?fr 1 False 0
                   ([[0, 1], [9, 0]],
                    [?e (27 / 512), ?e (16685492805 / 137438953472),
                     ?e (- (745839 / 8388608)), ?e (- (178659 / 8388608))],
                    [?e 0, ?e (1912477779 / 137438953472), ?e (9562388895 / 137438953472),
                     ?e (5737433337 / 137438953472)]))
                 = [[0, 1], [1, 0]]"
    by (simp only: serpentine_pixel_output match_4) simp
  have backward: "serpentine_columns False 2 = [1, 0]"
    by (simp add: serpentine_columns_def error_row_cells)
  have row_2: "fst (serpentine_row ?fr 2 1
                 ([[0, 1], [9, 9]],
                  [?e (27 / 512), ?e (201303 / 8388608), ?e (- (745839 / 8388608)),
                   ?e (- (178659 / 8388608))],
                  [?e 0, ?e 0, ?e (63 / 512), ?e (- (1250613 / 8388608))]))
               = [[0, 1], [1, 0]]"
    by (simp only: serpentine_row_output backward spare odd_one fold_simps pixel_3 pixel_4)
  have spec: "floyd_serpentine ?ext ?img [[9, 9], [9, 9]] ?cmap 1 False False (1 / 16)
                = [[0, 1], [1, 0]]"
    by (simp only: floyd_serpentine_def liq_image.select_convs error_row_cells fold_simps
          noise spare row_1 row_2)
  show ?thesis
    using floyd_steinberg_serpentine [OF fits] spec by simp
qed

text \<open>
  C8, as the code has it: a remap call with a nonzero dithering level calls the dithered
  remapper with \<open>max_dither_error = max(2.4 * base_error, 16/256)\<close>, where
  \<open>base_error\<close> is the palette error of the result object or, when the first plain pass
  ran, the error that pass returned.
\<close>

theorem dithered_remap_error_limit:
  assumes "rr_dither_level result \<noteq> 0"
  shows "(\<not> (rr_use_dither_map result
              \<and> img_edges input_image \<noteq> None \<and> img_dither_map input_image = None) \<longrightarrow>
            liq_write_remapped_image_rows ext vops result input_image row_pointers
              = dithered_call ext result (rr_palette_error result) row_pointers
                  (rr_palette result) input_image False
                  (max (2.4 * rr_palette_error result) (16 / 256)))
       \<and> (rr_use_dither_map result
              \<and> img_edges input_image \<noteq> None \<and> img_dither_map input_image = None \<longrightarrow>
            (\<forall>mse row_pointers1 cmap1 input_image1.
               first_pass ext vops result input_image row_pointers
                 = Inr (mse, row_pointers1, cmap1, input_image1) \<longrightarrow>
               liq_write_remapped_image_rows ext vops result input_image row_pointers
                 = dithered_call ext result mse row_pointers1 cmap1 input_image1 True
                     (max (2.4 * mse) (16 / 256))))"
  using assms
  by (auto simp: liq_write_remapped_image_rows_def dithered_call_def dither_error_limit_def
        set_rounded_palette_def Let_def mult.commute)

theorem dithered_remap_error_limit_witness:
  "liq_write_remapped_image_rows
     \<lparr>ext_to_f = (\<lambda>gamma px. \<lparr>f_a = real (unat (px_a px)) / 255, f_r = real (unat (px_r px)) / 255,
                               f_g = real (unat (px_g px)) / 255, f_b = real (unat (px_b px)) / 255\<rparr>),
      ext_to_rgb = (\<lambda>gamma px. \<lparr>px_r = of_int \<lfloor>f_r px * 255\<rfloor>, px_g = of_int \<lfloor>f_g px * 255\<rfloor>,
                                 px_b = of_int \<lfloor>f_b px * 255\<rfloor>, px_a = of_int \<lfloor>f_a px * 255\<rfloor>\<rparr>),
      ext_colordifference = (\<lambda>p q. (f_r p - f_r q) * (f_r p - f_r q)),
      ext_nearest_search = (\<lambda>cmap px m. (if f_r px < 1 / 2 then 0 else 1, 0)),
      ext_rand = (\<lambda>k. 1), ext_RAND_MAX = 2, ext_MAX_DIFF = 10 ^ 20\<rparr>
     \<lparr>viter_init = (\<lambda>cmap. ()), viter_update_color = (\<lambda>px w cmap match thread v. v),
      viter_finalize = (\<lambda>cmap v. cmap)\<rparr>
     \<lparr>rr_palette = [\<lparr>acolor = \<lparr>f_a = 1, f_r = 0, f_g = 0, f_b = 0\<rparr>, popularity = 1\<rparr>],
      rr_int_palette = [], rr_gamma = 0.45455, rr_palette_error = 1 / 10,
      rr_min_opaque_val = 1, rr_dither_level = 1, rr_use_dither_map = False\<rparr>
     \<lparr>img_memory = [\<lparr>px_r = 204, px_g = 204, px_b = 204, px_a = 255\<rparr>],
      img_rows = [0], img_gamma = 1, img_width = 1, img_height = 1,
      img_noise = None, img_edges = None, img_dither_map = None, img_modified = False\<rparr>
     [[9]]
   = dithered_call
     \<lparr>ext_to_f = (\<lambda>gamma px. \<lparr>f_a = real (unat (px_a px)) / 255, f_r = real (unat (px_r px)) / 255,
                               f_g = real (unat (px_g px)) / 255, f_b = real (unat (px_b px)) / 255\<rparr>),
      ext_to_rgb = (\<lambda>gamma px. \<lparr>px_r = of_int \<lfloor>f_r px * 255\<rfloor>, px_g = of_int \<lfloor>f_g px * 255\<rfloor>,
                                 px_b = of_int \<lfloor>f_b px * 255\<rfloor>, px_a = of_int \<lfloor>f_a px * 255\<rfloor>\<rparr>),
      ext_colordifference = (\<lambda>p q. (f_r p - f_r q) * (f_r p - f_r q)),
      ext_nearest_search = (\<lambda>cmap px m. (if f_r px < 1 / 2 then 0 else 1, 0)),
      ext_rand = (\<lambda>k. 1), ext_RAND_MAX = 2, ext_MAX_DIFF = 10 ^ 20\<rparr>
     \<lparr>rr_palette = [\<lparr>acolor = \<lparr>f_a = 1, f_r = 0, f_g = 0, f_b = 0\<rparr>, popularity = 1\<rparr>],
      rr_int_palette = [], rr_gamma = 0.45455, rr_palette_error = 1 / 10,
      rr_min_opaque_val = 1, rr_dither_level = 1, rr_use_dither_map = False\<rparr>
     (1 / 10) [[9]]
     [\<lparr>acolor = \<lparr>f_a = 1, f_r = 0, f_g = 0, f_b = 0\<rparr>, popularity = 1\<rparr>]
     \<lparr>img_memory = [\<lparr>px_r = 204, px_g = 204, px_b = 204, px_a = 255\<rparr>],
      img_rows = [0], img_gamma = 1, img_width = 1, img_height = 1,
      img_noise = None, img_edges = None, img_dither_map = None, img_modified = False\<rparr>
     False (6 / 25)"
proof -
  let ?result = "\<lparr>rr_palette = [\<lparr>acolor = \<lparr>f_a = 1, f_r = 0, f_g = 0, f_b = 0\<rparr>, popularity = 1\<rparr>],
      rr_int_palette = [], rr_gamma = 0.45455, rr_palette_error = 1 / 10,
      rr_min_opaque_val = 1, rr_dither_level = 1, rr_use_dither_map = False\<rparr>"
  have level: "rr_dither_level ?result \<noteq> 0" by simp
  have limit: "max (2.4 * rr_palette_error ?result) (16 / 256) = 6 / 25" by simp
  show ?thesis
    using dithered_remap_error_limit [OF level,
        where vops = "\<lparr>viter_init = (\<lambda>cmap. ()), viter_update_color = (\<lambda>px w cmap match thread v. v),
                       viter_finalize = (\<lambda>cmap v. cmap)\<rparr>"]
    by (simp only: limit) simp
qed

text \<open>
  C8 as the specification states it (16/255) fails: with a palette error of 0 the code
  passes 1/16, which is not \<open>max(2.4 * 0, 16/255)\<close>; and \<open>get_dithered_pixel\<close>
  tells the two limits apart.
\<close>

theorem dithered_remap_error_limit_counterexample:
  "liq_write_remapped_image_rows
     \<lparr>ext_to_f = (\<lambda>gamma px. \<lparr>f_a = real (unat (px_a px)) / 255, f_r = real (unat (px_r px)) / 255,
                               f_g = real (unat (px_g px)) / 255, f_b = real (unat (px_b px)) / 255\<rparr>),
      ext_to_rgb = (\<lambda>gamma px. \<lparr>px_r = of_int \<lfloor>f_r px * 255\<rfloor>, px_g = of_int \<lfloor>f_g px * 255\<rfloor>,
                                 px_b = of_int \<lfloor>f_b px * 255\<rfloor>, px_a = of_int \<lfloor>f_a px * 255\<rfloor>\<rparr>),
      ext_colordifference = (\<lambda>p q. (f_r p - f_r q) * (f_r p - f_r q)),
      ext_nearest_search = (\<lambda>cmap px m. (if f_r px < 1 / 2 then 0 else 1, 0)),
      ext_rand = (\<lambda>k. 1), ext_RAND_MAX = 2, ext_MAX_DIFF = 10 ^ 20\<rparr>
     \<lparr>viter_init = (\<lambda>cmap. ()), viter_update_color = (\<lambda>px w cmap match thread v. v),
      viter_finalize = (\<lambda>cmap v. cmap)\<rparr>
     \<lparr>rr_palette = [\<lparr>acolor = \<lparr>f_a = 1, f_r = 0, f_g = 0, f_b = 0\<rparr>, popularity = 1\<rparr>],
      rr_int_palette = [], rr_gamma = 0.45455, rr_palette_error = 0,
      rr_min_opaque_val = 1, rr_dither_level = 1, rr_use_dither_map = False\<rparr>
     \<lparr>img_memory = [\<lparr>px_r = 204, px_g = 204, px_b = 204, px_a = 255\<rparr>],
      img_rows = [0], img_gamma = 1, img_width = 1, img_height = 1,
      img_noise = None, img_edges = None, img_dither_map = None, img_modified = False\<rparr>
     [[9]]
   = dithered_call
     \<lparr>ext_to_f = (\<lambda>gamma px. \<lparr>f_a = real (unat (px_a px)) / 255, f_r = real (unat (px_r px)) / 255,
                               f_g = real (unat (px_g px)) / 255, f_b = real (unat (px_b px)) / 255\<rparr>),
      ext_to_rgb = (\<lambda>gamma px. \<lparr>px_r = of_int \<lfloor>f_r px * 255\<rfloor>, px_g = of_int \<lfloor>f_g px * 255\<rfloor>,
                                 px_b = of_int \<lfloor>f_b px * 255\<rfloor>, px_a = of_int \<lfloor>f_a px * 255\<rfloor>\<rparr>),
      ext_colordifference = (\<lambda>p q. (f_r p - f_r q) * (f_r p - f_r q)),
      ext_nearest_search = (\<lambda>cmap px m. (if f_r px < 1 / 2 then 0 else 1, 0)),
      ext_rand = (\<lambda>k. 1), ext_RAND_MAX = 2, ext_MAX_DIFF = 10 ^ 20\<rparr>
     \<lparr>rr_palette = [\<lparr>acolor = \<lparr>f_a = 1, f_r = 0, f_g = 0, f_b = 0\<rparr>, popularity = 1\<rparr>],
      rr_int_palette = [], rr_gamma = 0.45455, rr_palette_error = 0,
      rr_min_opaque_val = 1, rr_dither_level = 1, rr_use_dither_map = False\<rparr>
     0 [[9]]
     [\<lparr>acolor = \<lparr>f_a = 1, f_r = 0, f_g = 0, f_b = 0\<rparr>, popularity = 1\<rparr>]
     \<lparr>img_memory = [\<lparr>px_r = 204, px_g = 204, px_b = 204, px_a = 255\<rparr>],
      img_rows = [0], img_gamma = 1, img_width = 1, img_height = 1,
      img_noise = None, img_edges = None, img_dither_map = None, img_modified = False\<rparr>
     False (1 / 16)
   \<and> (1 / 16 :: real) \<noteq> max (2.4 * 0) (16 / 255)
   \<and> get_dithered_pixel 1 (1 / 16) \<lparr>f_a = 0, f_r = 1251 / 5000, f_g = 0, f_b = 0\<rparr>
         \<lparr>f_a = 1, f_r = 9 / 10, f_g = 0, f_b = 0\<rparr>
       \<noteq> get_dithered_pixel 1 (max (2.4 * 0) (16 / 255)) \<lparr>f_a = 0, f_r = 1251 / 5000, f_g = 0, f_b = 0\<rparr>
         \<lparr>f_a = 1, f_r = 9 / 10, f_g = 0, f_b = 0\<rparr>"
proof (intro conjI)
  show "(1 / 16 :: real) \<noteq> max (2.4 * 0) (16 / 255)" by simp
next
  show "get_dithered_pixel 1 (1 / 16) \<lparr>f_a = 0, f_r = 1251 / 5000, f_g = 0, f_b = 0\<rparr>
         \<lparr>f_a = 1, f_r = 9 / 10, f_g = 0, f_b = 0\<rparr>
       \<noteq> get_dithered_pixel 1 (max (2.4 * 0) (16 / 255)) \<lparr>f_a = 0, f_r = 1251 / 5000, f_g = 0, f_b = 0\<rparr>
         \<lparr>f_a = 1, f_r = 9 / 10, f_g = 0, f_b = 0\<rparr>"
    by code_simp
qed (simp add: liq_write_remapped_image_rows_def dithered_call_def dither_error_limit_def
        set_rounded_palette_def Let_def split: sum.splits)

end
